theory Spec2Isabelle
  imports Complex_Main "HOL-Library.AList"
begin

section \<open>The metrics module of LIT (\<open>lit_nlp/client/modules/metrics_module.ts\<close>)\<close>

text \<open>
  The module keeps a keyed store of metrics rows (\<open>metricsMap\<close>), fills it from
  asynchronous scoring requests (\<open>addMetrics\<close>) and projects it into a table
  (\<open>tableData\<close>).

  Conventions of the embedding:
  \<^item> a JavaScript object used as a dictionary is an association list in the order in
    which \<open>Object.keys\<close> enumerates it (insertion order; none of the keys used here is
    an array index). Assigning to a key is \<open>AList.update\<close>: an existing key keeps its
    position, a new key goes to the end. Where the code reads a name that may not be a
    key (in \<open>tableData\<close>), the read goes on to what every object inherits;
  \<^item> a JavaScript number is a finite number, \<open>NaN\<close> or an infinity. A finite number
    is a \<open>rat\<close>: every finite double is a rational, and the two numeric operations of
    the module (\<open>% 1\<close> and \<open>toFixed\<close>) are exact on them;
  \<^item> a facet value (\<open>string | number\<close>) is kept as the string that a template
    literal makes of it;
  \<^item> an \<open>async\<close> function is split at its \<open>await\<close>: the part that runs when it is
    called, and the part that runs when the awaited promise has settled.
\<close>

subsection \<open>Data model\<close>

datatype Source = DATASET | SELECTION | SLICE

fun sourceToString :: "Source \<Rightarrow> string" where
  "sourceToString DATASET = ''dataset''"
| "sourceToString SELECTION = ''selection''"
| "sourceToString SLICE = ''slice''"

type_synonym FacetMap = "(string \<times> string) list"

datatype number = Finite rat | NaN | Infinity | MinusInfinity

type_synonym MetricsValues = "(string \<times> number) list"

type_synonym ModelHeadMetrics = "(string \<times> MetricsValues) list"

record MetricsResponse =
  pred_key :: string
  label_key :: string
  metrics :: MetricsValues

record MetricsRow =
  model :: string
  selection :: string
  predKey :: string
  exampleIds :: "string list"
  headMetrics :: ModelHeadMetrics
  source :: Source
  facets :: "FacetMap option"

type_synonym MetricsMap = "(string \<times> MetricsRow) list"

text \<open>Of an \<open>IndexedInput\<close> the module reads the \<open>id\<close> only.\<close>

record IndexedInput =
  input_id :: string

subsection \<open>\<open>getRowKey\<close>\<close>

text \<open>
  \<open>Object.values(facetMap).forEach(facetVal => facetString += `${facetVal}-`)\<close>:
  the loop over the values, with the string built so far as accumulator.
\<close>

fun facetString_loop :: "string \<Rightarrow> string list \<Rightarrow> string" where
  "facetString_loop acc [] = acc"
| "facetString_loop acc (facetVal # vs) = facetString_loop (acc @ facetVal @ ''-'') vs"

definition getRowKey :: "string \<Rightarrow> string \<Rightarrow> string \<Rightarrow> FacetMap option \<Rightarrow> string" where
  "getRowKey mdl datapointsId predK facetMap =
     (let facetString =
            (case facetMap of
               None \<Rightarrow> ''''
             | Some fm \<Rightarrow> facetString_loop '''' (map snd fm))
      in mdl @ ''-'' @ datapointsId @ ''-'' @ predK @ ''-'' @ facetString)"

text \<open>The values a facet map contributes to a key; an absent map contributes none.\<close>

fun facetValues :: "FacetMap option \<Rightarrow> string list" where
  "facetValues None = []"
| "facetValues (Some fm) = map snd fm"

definition dashFree :: "string \<Rightarrow> bool" where
  "dashFree s = (CHR ''-'' \<notin> set s)"

subsection \<open>The store: \<open>metricsMap\<close>\<close>

text \<open>
  The body of the innermost loop of \<open>addMetrics\<close>: one entry of the server's response
  is written to the store. A row is created (with empty \<open>headMetrics\<close>) only when the
  key is not there yet; then \<open>exampleIds\<close> is assigned and the response's metrics are
  assigned to \<open>headMetrics[metricsType]\<close>, whether the row is new or not.
\<close>

definition upsert ::
  "string \<Rightarrow> string \<Rightarrow> IndexedInput list \<Rightarrow> Source \<Rightarrow> FacetMap option \<Rightarrow> string \<Rightarrow>
   MetricsResponse \<Rightarrow> MetricsMap \<Rightarrow> MetricsMap" where
  "upsert mdl name datapoints src facetMap metricsType metricsResponse mm =
     (let rowKey = getRowKey mdl name (pred_key metricsResponse) facetMap;
          mm1 = (if map_of mm rowKey = None
                 then AList.update rowKey
                        \<lparr>model = mdl, selection = name, predKey = pred_key metricsResponse,
                         exampleIds = map input_id datapoints, headMetrics = [],
                         source = src, facets = facetMap\<rparr> mm
                 else mm);
          mm2 = AList.map_entry rowKey
                  (\<lambda>row. row\<lparr>exampleIds := map input_id datapoints\<rparr>) mm1
      in AList.map_entry rowKey
           (\<lambda>row. row\<lparr>headMetrics :=
                        AList.update metricsType (metrics metricsResponse) (headMetrics row)\<rparr>)
           mm2)"

text \<open>
  \<open>Object.keys(this.metricsMap).forEach(key => { if (P(this.metricsMap[key])) delete
  this.metricsMap[key]; })\<close>, the loop that \<open>firstUpdated\<close>, \<open>updateAllFacetedMetrics\<close>
  and \<open>updateSliceMetrics\<close> each run with their own test \<open>P\<close>. The keys are listed
  before the loop starts. A key that is no longer in the store cannot come up, since the
  loop deletes only the key it is looking at; the model skips it.
\<close>

definition evict :: "(MetricsRow \<Rightarrow> bool) \<Rightarrow> MetricsMap \<Rightarrow> MetricsMap" where
  "evict P mm =
     fold (\<lambda>key m. case map_of m key of
                      None \<Rightarrow> m
                    | Some row \<Rightarrow> if P row then AList.delete key m else m)
          (map fst mm) mm"

text \<open>A JavaScript object has each key once.\<close>

definition wellFormed :: "MetricsMap \<Rightarrow> bool" where
  "wellFormed mm = distinct (map fst mm)"

subsection \<open>Promises and the scoring service\<close>

datatype error = TypeError

datatype 'a promise = Pending | Fulfilled 'a | Rejected

text \<open>
  What \<open>getInterpretations\<close> resolves to: for each metrics generator the list of
  per-field entries. \<open>getMetrics\<close> resolves to \<open>undefined\<close> (here \<open>None\<close>) when it
  returns early.
\<close>

type_synonym Response = "(string \<times> MetricsResponse list) list"

text \<open>
  \<open>Promise.all\<close>: rejected as soon as one input is rejected, whatever the others are;
  fulfilled with the list of values once every input is fulfilled; pending otherwise.
\<close>

fun promiseAll :: "'a promise list \<Rightarrow> 'a list promise" where
  "promiseAll [] = Fulfilled []"
| "promiseAll (Rejected # ps) = Rejected"
| "promiseAll (Pending # ps) = (case promiseAll ps of Rejected \<Rightarrow> Rejected | _ \<Rightarrow> Pending)"
| "promiseAll (Fulfilled v # ps) =
     (case promiseAll ps of
        Fulfilled vs \<Rightarrow> Fulfilled (v # vs)
      | Pending \<Rightarrow> Pending
      | Rejected \<Rightarrow> Rejected)"

text \<open>
  The requests sent to the scoring service so far: the model and the ids of the examples
  of each call of \<open>apiService.getInterpretations\<close>.
\<close>

type_synonym ApiLog = "(string \<times> string list) list"

text \<open>
  \<open>getMetrics\<close>: with no inputs it returns at once, its promise is fulfilled with
  \<open>undefined\<close> and nothing is sent; otherwise it sends one request and its promise
  stays pending until the service answers.
\<close>

definition getMetrics ::
  "IndexedInput list \<Rightarrow> string \<Rightarrow> ApiLog \<Rightarrow> Response option promise \<times> ApiLog" where
  "getMetrics selectedInputs mdl api =
     (if selectedInputs = [] then (Fulfilled None, api)
      else (Pending, api @ [(mdl, map input_id selectedInputs)]))"

text \<open>\<open>models.map(async (model) => this.getMetrics(datapoints, model))\<close>\<close>

fun getMetrics_models ::
  "IndexedInput list \<Rightarrow> string list \<Rightarrow> ApiLog \<Rightarrow> Response option promise list \<times> ApiLog" where
  "getMetrics_models datapoints [] api = ([], api)"
| "getMetrics_models datapoints (mdl # mdls) api =
     (let (p, api1) = getMetrics datapoints mdl api;
          (ps, api2) = getMetrics_models datapoints mdls api1
      in (p # ps, api2))"

subsection \<open>The module's state\<close>

datatype status = Awaiting | Returned | Threw error

text \<open>
  One call of \<open>addMetrics\<close>: its arguments, the models it read when it was called, the
  promises it awaits jointly, and whether it is still suspended at its \<open>await\<close>.
\<close>

record Invocation =
  inv_models :: "string list"
  inv_datapoints :: "IndexedInput list"
  inv_source :: Source
  inv_facetMap :: "FacetMap option"
  inv_displayName :: "string option"
  inv_promises :: "Response option promise list"
  inv_status :: status

record ModuleState =
  metricsMap :: MetricsMap
  facetBySlice :: bool
  selectedFacets :: "string list"
  pendingCalls :: int
  invocations :: "Invocation list"
  apiCalls :: ApiLog

definition initialState :: ModuleState where
  "initialState =
     \<lparr>metricsMap = [], facetBySlice = False, selectedFacets = [], pendingCalls = 0,
      invocations = [], apiCalls = []\<rparr>"

text \<open>
  What the module reads from the services around it (\<open>appState\<close>, \<open>selectionService\<close>,
  \<open>sliceService\<close>, \<open>groupService\<close>) at the moment it runs. Their code is not part of
  the module, so they are parameters.
\<close>

record GroupedExamples =
  group_data :: "IndexedInput list"
  group_facets :: FacetMap

record Env =
  currentModels :: "string list"
  currentInputData :: "IndexedInput list"
  selectedInputData :: "IndexedInput list"
  sliceNames :: "string list"
  getSliceDataByName :: "string \<Rightarrow> IndexedInput list"
  groupExamplesByFeatures :: "IndexedInput list \<Rightarrow> string list \<Rightarrow> (string \<times> GroupedExamples) list"

subsection \<open>\<open>addMetrics\<close>\<close>

text \<open>
  Up to the \<open>await\<close>: the counter goes up, one \<open>getMetrics\<close> is started per model,
  and the call is suspended on \<open>Promise.all\<close> of their promises.
\<close>

definition addMetrics ::
  "Env \<Rightarrow> IndexedInput list \<Rightarrow> Source \<Rightarrow> FacetMap option \<Rightarrow> string option \<Rightarrow>
   ModuleState \<Rightarrow> ModuleState" where
  "addMetrics env datapoints src facetMap displayName s =
     (let models = currentModels env;
          s1 = s\<lparr>pendingCalls := pendingCalls s + 1\<rparr>;
          (ps, api) = getMetrics_models datapoints models (apiCalls s1)
      in s1\<lparr>apiCalls := api,
             invocations := invocations s1 @
               [\<lparr>inv_models = models, inv_datapoints = datapoints, inv_source = src,
                 inv_facetMap = facetMap, inv_displayName = displayName,
                 inv_promises = ps, inv_status = Awaiting\<rparr>]\<rparr>)"

text \<open>
  \<open>name\<close>: the display name if there is one, else the source's string, with the
  suffix for a faceted call.
\<close>

definition rowName :: "Source \<Rightarrow> FacetMap option \<Rightarrow> string option \<Rightarrow> string" where
  "rowName src facetMap displayName =
     (let name = (case displayName of Some d \<Rightarrow> d | None \<Rightarrow> sourceToString src)
      in if facetMap \<noteq> None then name @ '' (faceted)'' else name)"

text \<open>
  \<open>datasetMetrics.forEach((returnedMetrics, i) => Object.keys(returnedMetrics).forEach(
  metricsType => returnedMetrics[metricsType].forEach(...)))\<close>, with \<open>models[i]\<close> paired
  to the \<open>i\<close>-th response. \<open>Object.keys(undefined)\<close> throws a \<open>TypeError\<close>, which
  ends the loop and leaves the store as the earlier iterations made it.
\<close>

fun storeReturned ::
  "string \<Rightarrow> IndexedInput list \<Rightarrow> Source \<Rightarrow> FacetMap option \<Rightarrow>
   (string \<times> Response option) list \<Rightarrow> MetricsMap \<Rightarrow> MetricsMap \<times> error option" where
  "storeReturned name datapoints src facetMap [] mm = (mm, None)"
| "storeReturned name datapoints src facetMap ((mdl, None) # rest) mm = (mm, Some TypeError)"
| "storeReturned name datapoints src facetMap ((mdl, Some returnedMetrics) # rest) mm =
     storeReturned name datapoints src facetMap rest
       (fold (\<lambda>(metricsType, metricsRespones).
                fold (upsert mdl name datapoints src facetMap metricsType) metricsRespones)
             returnedMetrics mm)"

text \<open>
  After the \<open>await\<close>, for a call \<open>c\<close> whose \<open>Promise.all\<close> has settled: the counter
  goes down in the \<open>try\<close> branch and in the \<open>catch\<close> branch alike; \<open>datasetMetrics\<close>
  is the list of responses, or still \<open>[]\<close> after a rejection; then the rows are
  written. \<open>None\<close> when the joint promise is still pending.
\<close>

definition addMetrics_resume ::
  "Invocation \<Rightarrow> ModuleState \<Rightarrow> (ModuleState \<times> error option) option" where
  "addMetrics_resume c s =
     (case promiseAll (inv_promises c) of
        Pending \<Rightarrow> None
      | settled \<Rightarrow>
          (let datasetMetrics = (case settled of Fulfilled vs \<Rightarrow> vs | _ \<Rightarrow> []);
               s1 = s\<lparr>pendingCalls := pendingCalls s - 1\<rparr>;
               name = rowName (inv_source c) (inv_facetMap c) (inv_displayName c);
               (mm, err) = storeReturned name (inv_datapoints c) (inv_source c) (inv_facetMap c)
                             (zip (inv_models c) datasetMetrics) (metricsMap s1)
           in Some (s1\<lparr>metricsMap := mm\<rparr>, err)))"

subsection \<open>The routines that call \<open>addMetrics\<close>\<close>

definition updateFacetedMetrics ::
  "Env \<Rightarrow> IndexedInput list \<Rightarrow> bool \<Rightarrow> ModuleState \<Rightarrow> ModuleState" where
  "updateFacetedMetrics env datapoints isSelection s =
     (if length (selectedFacets s) > 0
      then (let groupedExamples = groupExamplesByFeatures env datapoints (selectedFacets s);
                src = (if isSelection then SELECTION else DATASET)
            in fold (\<lambda>(key, g). addMetrics env (group_data g) src (Some (group_facets g)) None)
                    groupedExamples s)
      else s)"

definition updateAllFacetedMetrics :: "Env \<Rightarrow> ModuleState \<Rightarrow> ModuleState" where
  "updateAllFacetedMetrics env s =
     (let s1 = s\<lparr>metricsMap := evict (\<lambda>row. facets row \<noteq> None) (metricsMap s)\<rparr>
      in if length (selectedFacets s1) > 0
         then updateFacetedMetrics env (currentInputData env) False
                (updateFacetedMetrics env (selectedInputData env) True s1)
         else s1)"

definition updateSliceMetrics :: "Env \<Rightarrow> ModuleState \<Rightarrow> ModuleState" where
  "updateSliceMetrics env s =
     (let s1 = s\<lparr>metricsMap := evict (\<lambda>row. source row = SLICE) (metricsMap s)\<rparr>
      in if facetBySlice s1
         then fold (\<lambda>name st.
                      let data = getSliceDataByName env name
                      in if length data > 0 then addMetrics env data SLICE None (Some name) st
                         else st)
                   (sliceNames env) s1
         else s1)"

text \<open>
  The reactions registered in \<open>firstUpdated\<close>. The reaction to the selection first
  deletes every row whose \<open>source\<close> is \<open>SELECTION\<close>.
\<close>

definition purgeSelection :: "ModuleState \<Rightarrow> ModuleState" where
  "purgeSelection s = s\<lparr>metricsMap := evict (\<lambda>row. source row = SELECTION) (metricsMap s)\<rparr>"

definition onSelectedInputData :: "Env \<Rightarrow> ModuleState \<Rightarrow> ModuleState" where
  "onSelectedInputData env s =
     (let s1 = purgeSelection s
      in if length (selectedInputData env) > 0
         then updateFacetedMetrics env (selectedInputData env) True
                (addMetrics env (selectedInputData env) SELECTION None None s1)
         else s1)"

definition onCurrentInputData :: "Env \<Rightarrow> ModuleState \<Rightarrow> ModuleState" where
  "onCurrentInputData env s =
     updateAllFacetedMetrics env (addMetrics env (currentInputData env) DATASET None None s)"

definition onAllMarginSettings :: "Env \<Rightarrow> ModuleState \<Rightarrow> ModuleState" where
  "onAllMarginSettings env s =
     updateAllFacetedMetrics env (addMetrics env (currentInputData env) DATASET None None s)"

definition onSliceNames :: "Env \<Rightarrow> ModuleState \<Rightarrow> ModuleState" where
  "onSliceNames env s = updateSliceMetrics env (s\<lparr>facetBySlice := True\<rparr>)"

definition onSlicesCheckboxChecked :: "Env \<Rightarrow> ModuleState \<Rightarrow> ModuleState" where
  "onSlicesCheckboxChecked env s = updateSliceMetrics env (s\<lparr>facetBySlice := \<not> facetBySlice s\<rparr>)"

text \<open>
  \<open>indexOf\<close> gives \<open>-1\<close> for a key that is not in the list, and \<open>splice(-1, 1)\<close>
  removes the last element.
\<close>

fun indexOf :: "string list \<Rightarrow> string \<Rightarrow> int" where
  "indexOf [] key = -1"
| "indexOf (x # xs) key =
     (if x = key then 0 else (let i = indexOf xs key in if i < 0 then -1 else i + 1))"

definition splice1 :: "string list \<Rightarrow> int \<Rightarrow> string list" where
  "splice1 xs i =
     (let len = int (length xs);
          start = nat (if i < 0 then max (len + i) 0 else min i len)
      in take start xs @ drop (start + 1) xs)"

definition onFeatureCheckboxChange :: "Env \<Rightarrow> bool \<Rightarrow> string \<Rightarrow> ModuleState \<Rightarrow> ModuleState" where
  "onFeatureCheckboxChange env checked key s =
     updateAllFacetedMetrics env
       (if checked then s\<lparr>selectedFacets := selectedFacets s @ [key]\<rparr>
        else s\<lparr>selectedFacets := splice1 (selectedFacets s) (indexOf (selectedFacets s) key)\<rparr>)"

text \<open>
  \<open>firstUpdated\<close>: \<open>reactImmediately\<close> runs the selection reaction once when it is
  registered; the other reactions only register; then the dataset metrics are fetched
  by hand.
\<close>

definition firstUpdated :: "Env \<Rightarrow> ModuleState \<Rightarrow> ModuleState" where
  "firstUpdated env s =
     updateAllFacetedMetrics env
       (addMetrics env (currentInputData env) DATASET None None (onSelectedInputData env s))"

subsection \<open>The module as a transition system\<close>

text \<open>
  JavaScript runs one piece of code at a time. The module's state changes when one of
  its routines runs, when the scoring service answers a request (promise \<open>j\<close> of call
  \<open>i\<close> is fulfilled or rejected), and when a suspended \<open>addMetrics\<close> whose joint
  promise has settled is resumed. An event that cannot happen in the state it is given
  (no such call, a promise that has settled already, a call that has been resumed already
  or cannot be resumed yet) changes nothing.
\<close>

datatype event =
    FirstUpdated Env
  | CurrentInputData Env
  | SelectedInputData Env
  | AllMarginSettings Env
  | SliceNames Env
  | SlicesCheckbox Env
  | FeatureCheckbox Env bool string
  | AddMetrics Env "IndexedInput list" Source "FacetMap option" "string option"
  | Answer nat nat Response
  | Fail nat nat
  | Resume nat

definition settle :: "nat \<Rightarrow> nat \<Rightarrow> Response option promise \<Rightarrow> ModuleState \<Rightarrow> ModuleState" where
  "settle i j outcome s =
     (if i < length (invocations s) \<and> j < length (inv_promises (invocations s ! i))
           \<and> inv_promises (invocations s ! i) ! j = Pending
      then s\<lparr>invocations := (invocations s)
                [i := (invocations s ! i)
                        \<lparr>inv_promises := (inv_promises (invocations s ! i))[j := outcome]\<rparr>]\<rparr>
      else s)"

definition resume :: "nat \<Rightarrow> ModuleState \<Rightarrow> ModuleState" where
  "resume i s =
     (if i < length (invocations s) \<and> inv_status (invocations s ! i) = Awaiting
      then (case addMetrics_resume (invocations s ! i) s of
              None \<Rightarrow> s
            | Some (s1, err) \<Rightarrow>
                s1\<lparr>invocations := (invocations s1)
                      [i := (invocations s1 ! i)
                              \<lparr>inv_status := (case err of None \<Rightarrow> Returned | Some e \<Rightarrow> Threw e)\<rparr>]\<rparr>)
      else s)"

fun step :: "event \<Rightarrow> ModuleState \<Rightarrow> ModuleState" where
  "step (FirstUpdated env) s = firstUpdated env s"
| "step (CurrentInputData env) s = onCurrentInputData env s"
| "step (SelectedInputData env) s = onSelectedInputData env s"
| "step (AllMarginSettings env) s = onAllMarginSettings env s"
| "step (SliceNames env) s = onSliceNames env s"
| "step (SlicesCheckbox env) s = onSlicesCheckboxChecked env s"
| "step (FeatureCheckbox env checked key) s = onFeatureCheckboxChange env checked key s"
| "step (AddMetrics env datapoints src facetMap displayName) s =
     addMetrics env datapoints src facetMap displayName s"
| "step (Answer i j r) s = settle i j (Fulfilled (Some r)) s"
| "step (Fail i j) s = settle i j Rejected s"
| "step (Resume i) s = resume i s"

definition run :: "event list \<Rightarrow> ModuleState \<Rightarrow> ModuleState" where
  "run evs s = fold step evs s"

text \<open>The calls that are still suspended at their \<open>await\<close>.\<close>

definition awaiting :: "ModuleState \<Rightarrow> Invocation list" where
  "awaiting s = filter (\<lambda>c. inv_status c = Awaiting) (invocations s)"

text \<open>The requests of a call that the service has not answered yet.\<close>

definition inFlight :: "Invocation \<Rightarrow> nat" where
  "inFlight c = length (filter (\<lambda>p. p = Pending) (inv_promises c))"

subsection \<open>\<open>tableData\<close>: the metric columns\<close>

text \<open>
  A value that a property read gives, as far as \<open>tableData\<close> tells values apart:
  \<open>null\<close> or \<open>undefined\<close>, a number, a string, or anything else (a function, an
  object), named by a label.
\<close>

datatype jsval = Nullish | NumberVal number | StringVal string | OtherVal string

text \<open>
  What a read of a name finds when the name is not a key of the object: nothing for most
  names, and for the names that every object inherits (\<open>constructor\<close>, \<open>toString\<close>
  and the like) the inherited member, which is a function or an object. Of a member,
  \<open>member_get\<close> reads a property and \<open>member_shown\<close> is its label. Which names are
  inherited and what the members hold is the JavaScript runtime's, not the module's: it
  is a parameter.
\<close>

record Member =
  member_shown :: string
  member_get :: "string \<Rightarrow> jsval"

type_synonym Inherited = "string \<Rightarrow> Member option"

text \<open>A cell of the table: a number, a string, or another value returned as it is.\<close>

datatype cell = Num number | Str string | Other string

text \<open>\<open>Set.add\<close>: a \<open>Set\<close> keeps its elements in the order in which they came.\<close>

definition setAdd :: "string list \<Rightarrow> string \<Rightarrow> string list" where
  "setAdd names x = (if x \<in> set names then names else names @ [x])"

definition columnName :: "string \<Rightarrow> string \<Rightarrow> string" where
  "columnName metricsType metricName = metricsType @ '': '' @ metricName"

text \<open>The first loop of \<open>tableData\<close>, which collects \<open>allMetricNames\<close>.\<close>

definition metricNames :: "MetricsMap \<Rightarrow> string list" where
  "metricNames mm =
     fold (\<lambda>(key, row).
             fold (\<lambda>(metricsType, metricsValues).
                     fold (\<lambda>(metricName, v) names. setAdd names (columnName metricsType metricName))
                          metricsValues)
                  (headMetrics row))
          mm []"

text \<open>
  \<open>metricKey.split(": ")\<close>: the pieces of the string between the occurrences of the
  two characters \<open>: \<close>, found from left to right.
\<close>

fun splitColonSpace :: "string \<Rightarrow> string list" where
  "splitColonSpace (a # b # cs) =
     (if a = CHR '':'' \<and> b = CHR '' '' then [] # splitColonSpace cs
      else (case splitColonSpace (b # cs) of
              p # ps \<Rightarrow> (a # p) # ps
            | [] \<Rightarrow> [a] # []))"
| "splitColonSpace [a] = [a] # []"
| "splitColonSpace [] = [] # []"

text \<open>
  \<open>const [metricsType, metricName] = ...\<close>: an element that the array does not have
  is \<open>undefined\<close>, which as a property name reads \<open>undefined\<close>.
\<close>

definition element :: "string list \<Rightarrow> nat \<Rightarrow> string" where
  "element parts i = (if i < length parts then parts ! i else ''undefined'')"

text \<open>
  \<open>num % 1\<close>: for a finite number the remainder has the sign of \<open>num\<close>, and it is
  \<open>0\<close> exactly for the whole numbers; for \<open>NaN\<close> and the infinities it is \<open>NaN\<close>.
\<close>

fun remainder1 :: "number \<Rightarrow> number" where
  "remainder1 (Finite x) = Finite (x - of_int (if x < 0 then \<lceil>x\<rceil> else \<lfloor>x\<rfloor>))"
| "remainder1 NaN = NaN"
| "remainder1 Infinity = NaN"
| "remainder1 MinusInfinity = NaN"

definition digitChar :: "nat \<Rightarrow> char" where
  "digitChar d = ''0123456789'' ! d"

function digits :: "nat \<Rightarrow> string" where
  "digits n = (if n < 10 then [digitChar n] else digits (n div 10) @ [digitChar (n mod 10)])"
  by pat_completeness auto
termination
  by (relation "measure (\<lambda>n. n)") auto

declare digits.simps [simp del]

text \<open>
  \<open>Number.prototype.toFixed(f)\<close> of a finite number below \<open>10^21\<close> (a double that
  is not whole is below \<open>2^53\<close>), as ECMAScript
  defines it: the sign apart, take the integer \<open>n\<close> for which \<open>n / 10^f\<close> is nearest
  to the number (the larger \<open>n\<close> of two equally near), write \<open>n\<close> in decimal, pad it
  with zeros on the left to \<open>f + 1\<close> digits, and put the point before the last \<open>f\<close>
  digits.
\<close>

definition toFixedFinite :: "nat \<Rightarrow> rat \<Rightarrow> string" where
  "toFixedFinite f num =
     (let s = (if num < 0 then ''-'' else '''');
          x = \<bar>num\<bar>;
          n = nat \<lfloor>x * 10 ^ f + 1 / 2\<rfloor>;
          m = digits n;
          m1 = (if length m \<le> f then replicate (f + 1 - length m) (CHR ''0'') @ m else m);
          k = length m1
      in if f \<noteq> 0 then s @ take (k - f) m1 @ ''.'' @ drop (k - f) m1 else s @ m)"

text \<open>
  \<open>toFixed\<close> of a number that is not finite is the number's name.
\<close>

fun toFixed :: "nat \<Rightarrow> number \<Rightarrow> string" where
  "toFixed f (Finite x) = toFixedFinite f x"
| "toFixed f NaN = ''NaN''"
| "toFixed f Infinity = ''Infinity''"
| "toFixed f MinusInfinity = ''-Infinity''"

text \<open>
  What the function that \<open>tableData\<close> maps over the metric columns returns for the
  value \<open>num\<close> that it has read: \<open>-\<close> for \<open>null\<close> and \<open>undefined\<close>; for a number
  with \<open>num % 1 !== 0\<close> (which holds for \<open>NaN\<close>) the string \<open>num.toFixed(3)\<close>;
  any other value as it is.
\<close>

fun shown :: "jsval \<Rightarrow> cell" where
  "shown Nullish = Str ''-''"
| "shown (NumberVal num) = (if remainder1 num \<noteq> Finite 0 then Str (toFixed 3 num) else Num num)"
| "shown (StringVal s) = Str s"
| "shown (OtherVal v) = Other v"

text \<open>
  The function that \<open>tableData\<close> maps over the metric columns of one row. The read
  \<open>row.headMetrics[metricsType]\<close> finds the metrics of a generator that the row has, or
  else what every object inherits under that name; it is \<open>-\<close> only if it finds
  neither. The read \<open>[metricName]\<close> on what was found does the same.
\<close>

definition metricCell :: "Inherited \<Rightarrow> MetricsRow \<Rightarrow> string \<Rightarrow> cell" where
  "metricCell inherited row metricKey =
     (let parts = splitColonSpace metricKey;
          metricsType = element parts 0;
          metricName = element parts 1
      in case map_of (headMetrics row) metricsType of
           Some metricsValues \<Rightarrow>
             (case map_of metricsValues metricName of
                Some num \<Rightarrow> shown (NumberVal num)
              | None \<Rightarrow>
                  (case inherited metricName of
                     None \<Rightarrow> shown Nullish
                   | Some m \<Rightarrow> shown (OtherVal (member_shown m))))
         | None \<Rightarrow>
             (case inherited metricsType of
                None \<Rightarrow> Str ''-''
              | Some m \<Rightarrow> shown (member_get m metricName)))"

definition rowMetrics :: "Inherited \<Rightarrow> MetricsMap \<Rightarrow> MetricsRow \<Rightarrow> cell list" where
  "rowMetrics inherited mm row = map (metricCell inherited row) (metricNames mm)"

text \<open>A name in which the two characters \<open>: \<close> occur.\<close>

fun hasColonSpace :: "string \<Rightarrow> bool" where
  "hasColonSpace (a # b # cs) = ((a = CHR '':'' \<and> b = CHR '' '') \<or> hasColonSpace (b # cs))"
| "hasColonSpace [a] = False"
| "hasColonSpace [] = False"

definition isDigit :: "char \<Rightarrow> bool" where
  "isDigit c = (c \<in> set ''0123456789'')"

subsection \<open>Notions used to state the properties\<close>

text \<open>
  A call of \<open>addMetrics\<close> as it stands right after it was made: a call with no
  datapoints has promises that are fulfilled with \<open>undefined\<close>, any other call has one
  pending promise per model.
\<close>

definition suspended ::
  "Env \<Rightarrow> IndexedInput list \<Rightarrow> Source \<Rightarrow> FacetMap option \<Rightarrow> string option \<Rightarrow> Invocation" where
  "suspended env datapoints src facetMap displayName =
     \<lparr>inv_models = currentModels env, inv_datapoints = datapoints, inv_source = src,
      inv_facetMap = facetMap, inv_displayName = displayName,
      inv_promises = map (\<lambda>mdl. if datapoints = [] then Fulfilled None else Pending)
                         (currentModels env),
      inv_status = Awaiting\<rparr>"

text \<open>The requests that one call of \<open>addMetrics\<close> sends.\<close>

definition requestsFor :: "Env \<Rightarrow> IndexedInput list \<Rightarrow> ApiLog" where
  "requestsFor env datapoints =
     (if datapoints = [] then []
      else map (\<lambda>mdl. (mdl, map input_id datapoints)) (currentModels env))"

text \<open>The calls that \<open>updateFacetedMetrics\<close> makes: one for each group of examples.\<close>

definition facetedCalls :: "Env \<Rightarrow> IndexedInput list \<Rightarrow> bool \<Rightarrow> string list \<Rightarrow> Invocation list" where
  "facetedCalls env datapoints isSelection facetNames =
     map (\<lambda>(key, g). suspended env (group_data g) (if isSelection then SELECTION else DATASET)
                        (Some (group_facets g)) None)
         (groupExamplesByFeatures env datapoints facetNames)"

text \<open>The counter equals the number of calls that are suspended at their \<open>await\<close>.\<close>

definition counted :: "ModuleState \<Rightarrow> bool" where
  "counted s = (pendingCalls s = int (length (awaiting s)))"

text \<open>Every request that was sent has been answered.\<close>

definition answered :: "ModuleState \<Rightarrow> bool" where
  "answered s = (\<forall>c \<in> set (invocations s). inFlight c = 0)"

text \<open>The number that a string of decimal digits denotes.\<close>

definition digitVal :: "char \<Rightarrow> nat" where
  "digitVal c = of_char c - 48"

definition natOfDigits :: "string \<Rightarrow> nat" where
  "natOfDigits s = foldl (\<lambda>a c. 10 * a + digitVal c) 0 s"

subsection \<open>Example data\<close>

text \<open>
  Two examples, two models, one generator \<open>classification\<close> that reports an accuracy
  of \<open>0.5\<close> over \<open>4\<close> examples for the field \<open>label\<close>; all examples fall into one
  group of the facet \<open>genre\<close>.
\<close>

definition exampleInputs :: "IndexedInput list" where
  "exampleInputs = [\<lparr>input_id = ''e1''\<rparr>, \<lparr>input_id = ''e2''\<rparr>]"

definition exampleEnv :: Env where
  "exampleEnv =
     \<lparr>currentModels = [''bert'', ''lstm''], currentInputData = exampleInputs,
      selectedInputData = [\<lparr>input_id = ''e1''\<rparr>], sliceNames = [],
      getSliceDataByName = (\<lambda>name. []),
      groupExamplesByFeatures =
        (\<lambda>datapoints facetNames.
           [(''news'', \<lparr>group_data = datapoints, group_facets = [(''genre'', ''news'')]\<rparr>)])\<rparr>"

definition exampleEntry :: MetricsResponse where
  "exampleEntry = \<lparr>pred_key = ''label'', label_key = ''y'',
                    metrics = [(''accuracy'', Finite (1 / 2)), (''n'', Finite 4)]\<rparr>"

definition exampleResponse :: Response where
  "exampleResponse = [(''classification'', [exampleEntry])]"

definition exampleRow :: MetricsRow where
  "exampleRow =
     \<lparr>model = ''bert'', selection = ''dataset'', predKey = ''label'',
      exampleIds = [''e1'', ''e2''],
      headMetrics = [(''classification'', [(''accuracy'', Finite (1 / 2)), (''n'', Finite 4)])],
      source = DATASET, facets = None\<rparr>"

definition exampleFacetedRow :: MetricsRow where
  "exampleFacetedRow =
     \<lparr>model = ''bert'', selection = ''selection (faceted)'', predKey = ''label'',
      exampleIds = [''e1''],
      headMetrics = [(''classification'', [(''accuracy'', Finite 1)])],
      source = SELECTION, facets = Some [(''genre'', ''news'')]\<rparr>"

definition exampleStore :: MetricsMap where
  "exampleStore =
     [(''bert-dataset-label-'', exampleRow),
      (''bert-selection (faceted)-label-news-'', exampleFacetedRow)]"

definition exampleState :: ModuleState where
  "exampleState = initialState\<lparr>metricsMap := exampleStore\<rparr>"

text \<open>A row whose generator name contains the two characters \<open>: \<close>.\<close>

definition exampleColonRow :: MetricsRow where
  "exampleColonRow =
     \<lparr>model = ''bert'', selection = ''dataset'', predKey = ''label'',
      exampleIds = [''e1'', ''e2''],
      headMetrics = [(''paired: swap'', [(''delta'', Finite (1 / 2))])],
      source = DATASET, facets = None\<rparr>"

text \<open>A row with a metric whose value is \<open>NaN\<close>.\<close>

definition exampleNaNRow :: MetricsRow where
  "exampleNaNRow =
     \<lparr>model = ''bert'', selection = ''dataset'', predKey = ''score'',
      exampleIds = [''e1'', ''e2''],
      headMetrics = [(''regression'', [(''mse'', NaN)])],
      source = DATASET, facets = None\<rparr>"

text \<open>
  As much of a browser's runtime as the examples read: every object inherits
  \<open>constructor\<close>, which is the function \<open>Object\<close>, whose \<open>name\<close> is the string
  \<open>Object\<close> and whose \<open>length\<close> is \<open>1\<close>.
\<close>

definition exampleRuntime :: Inherited where
  "exampleRuntime name =
     (if name = ''constructor''
      then Some \<lparr>member_shown = ''function Object'',
                  member_get = (\<lambda>p. if p = ''name'' then StringVal ''Object''
                                    else if p = ''length'' then NumberVal (Finite 1)
                                    else Nullish)\<rparr>
      else None)"

text \<open>
  One call for the two models over the two examples; the first request fails while the
  second is still in flight, and the call is resumed.
\<close>

definition exampleFailFast :: "event list" where
  "exampleFailFast =
     [AddMetrics exampleEnv exampleInputs DATASET None None, Fail 0 0, Resume 0]"

text \<open>The same call with both requests answered, one of them with a failure.\<close>

definition exampleSettled :: "event list" where
  "exampleSettled =
     [AddMetrics exampleEnv exampleInputs DATASET None None,
      Answer 0 0 exampleResponse, Fail 0 1]"

subsection \<open>Facts about \<open>getRowKey\<close>\<close>

lemma facetString_loop_append:
  "facetString_loop acc vs = acc @ concat (map (\<lambda>v. v @ ''-'') vs)"
  by (induction vs arbitrary: acc) simp_all

lemma getRowKey_facetValues:
  "getRowKey m d p fm =
     m @ ''-'' @ d @ ''-'' @ p @ ''-'' @ concat (map (\<lambda>v. v @ ''-'') (facetValues fm))"
  by (cases fm) (simp_all add: getRowKey_def facetString_loop_append)

lemma dash_segment_eq:
  assumes "dashFree a" and "dashFree b" and "a @ CHR ''-'' # r = b @ CHR ''-'' # r'"
  shows "a = b \<and> r = r'"
  using assms
proof (induction a arbitrary: b)
  case Nil
  then show ?case by (cases b) (auto simp: dashFree_def)
next
  case (Cons x a)
  then show ?case by (cases b) (auto simp: dashFree_def)
qed

lemma dash_values_eq:
  assumes "\<forall>v \<in> set vs. dashFree v" and "\<forall>v \<in> set ws. dashFree v"
    and "concat (map (\<lambda>v. v @ ''-'') vs) = concat (map (\<lambda>v. v @ ''-'') ws)"
  shows "vs = ws"
  using assms
proof (induction vs arbitrary: ws)
  case Nil
  then show ?case by (cases ws) simp_all
next
  case (Cons v vs)
  show ?case
  proof (cases ws)
    case Nil
    with Cons.prems show ?thesis by simp
  next
    case (Cons w ws')
    with Cons.prems have "dashFree v" "dashFree w"
      and eq: "v @ CHR ''-'' # concat (map (\<lambda>v. v @ ''-'') vs) =
               w @ CHR ''-'' # concat (map (\<lambda>v. v @ ''-'') ws')"
      by simp_all
    then have "v = w" and rest: "concat (map (\<lambda>v. v @ ''-'') vs) = concat (map (\<lambda>v. v @ ''-'') ws')"
      using dash_segment_eq by blast+
    moreover have "vs = ws'"
      using Cons.IH [of ws'] Cons.prems rest Cons by simp
    ultimately show ?thesis using Cons by simp
  qed
qed

text \<open>
  C1 (as the code has it). \<open>getRowKey\<close> is a function of its arguments, and it is
  injective on the model, the label, the field and the sequence of facet values as long
  as none of these strings contains the delimiter \<open>-\<close>. The key holds the facet values
  only: the feature names of the facet map are not part of it, and an absent facet map
  gives the same key as an empty one.
\<close>

theorem getRowKey_injective_dashFree:
  assumes "dashFree m" "dashFree d" "dashFree p" "\<forall>v \<in> set (facetValues fm). dashFree v"
    and "dashFree m'" "dashFree d'" "dashFree p'" "\<forall>v \<in> set (facetValues fm'). dashFree v"
  shows "(getRowKey m d p fm = getRowKey m' d' p' fm') =
         (m = m' \<and> d = d' \<and> p = p' \<and> facetValues fm = facetValues fm')"
proof
  assume "getRowKey m d p fm = getRowKey m' d' p' fm'"
  then have e1: "m @ CHR ''-'' # (d @ ''-'' @ p @ ''-'' @ concat (map (\<lambda>v. v @ ''-'') (facetValues fm)))
               = m' @ CHR ''-'' # (d' @ ''-'' @ p' @ ''-'' @ concat (map (\<lambda>v. v @ ''-'') (facetValues fm')))"
    by (simp add: getRowKey_facetValues)
  from dash_segment_eq [OF assms(1) assms(5) e1]
  have m: "m = m'"
    and e2: "d @ CHR ''-'' # (p @ ''-'' @ concat (map (\<lambda>v. v @ ''-'') (facetValues fm)))
           = d' @ CHR ''-'' # (p' @ ''-'' @ concat (map (\<lambda>v. v @ ''-'') (facetValues fm')))"
    by simp_all
  from dash_segment_eq [OF assms(2) assms(6) e2]
  have d: "d = d'"
    and e3: "p @ CHR ''-'' # concat (map (\<lambda>v. v @ ''-'') (facetValues fm))
           = p' @ CHR ''-'' # concat (map (\<lambda>v. v @ ''-'') (facetValues fm'))"
    by simp_all
  from dash_segment_eq [OF assms(3) assms(7) e3]
  have p: "p = p'"
    and e4: "concat (map (\<lambda>v. v @ ''-'') (facetValues fm)) =
             concat (map (\<lambda>v. v @ ''-'') (facetValues fm'))"
    by simp_all
  from dash_values_eq [OF assms(4) assms(8) e4] m d p
  show "m = m' \<and> d = d' \<and> p = p' \<and> facetValues fm = facetValues fm'"
    by simp
next
  assume "m = m' \<and> d = d' \<and> p = p' \<and> facetValues fm = facetValues fm'"
  then show "getRowKey m d p fm = getRowKey m' d' p' fm'"
    by (simp add: getRowKey_facetValues)
qed

theorem getRowKey_injective_dashFree_witness:
  "(getRowKey ''bert'' ''dataset (faceted)'' ''label'' (Some [(''genre'', ''news'')]) =
    getRowKey ''bert'' ''dataset (faceted)'' ''label'' (Some [(''genre'', ''blog'')])) =
   (''bert'' = ''bert'' \<and> ''dataset (faceted)'' = ''dataset (faceted)'' \<and> ''label'' = ''label''
      \<and> facetValues (Some [(''genre'', ''news'')]) = facetValues (Some [(''genre'', ''blog'')]))"
  using getRowKey_injective_dashFree
    [of "''bert''" "''dataset (faceted)''" "''label''" "Some [(''genre'', ''news'')]"
        "''bert''" "''dataset (faceted)''" "''label''" "Some [(''genre'', ''blog'')]"]
  by (simp add: dashFree_def)

text \<open>
  C1 (as stated) fails: two different (model, label) pairs that differ only in where
  the \<open>-\<close> falls get the same key.
\<close>

theorem getRowKey_collision:
  "getRowKey ''a-b'' ''c'' ''label'' None = getRowKey ''a'' ''b-c'' ''label'' None
   \<and> (''a-b'', ''c'') \<noteq> (''a'', ''b-c'')"
  by (simp add: getRowKey_def)

subsection \<open>Facts about the store\<close>

lemma update_absent: "map_of al k = None \<Longrightarrow> AList.update k v al = al @ [(k, v)]"
  by (induction al) (auto split: if_splits)

lemma map_entry_absent: "map_of al k = None \<Longrightarrow> AList.map_entry k f al = al"
  by (induction al) (auto split: if_splits)

lemma map_entry_append_absent:
  "map_of al k = None \<Longrightarrow> AList.map_entry k f (al @ [(k, v)]) = al @ [(k, f v)]"
  by (induction al) (auto split: if_splits)

lemma map_entry_twice:
  "AList.map_entry k f (AList.map_entry k g al) = AList.map_entry k (\<lambda>v. f (g v)) al"
  by (induction al) auto

lemma map_entry_present:
  "map_of al k = Some v \<Longrightarrow> map_of (AList.map_entry k f al) k = Some (f v)"
  by (induction al) (auto split: if_splits)

lemma map_entry_other:
  "k' \<noteq> k \<Longrightarrow> map_of (AList.map_entry k f al) k' = map_of al k'"
  by (induction al) auto

lemma map_entry_keys: "map fst (AList.map_entry k f al) = map fst al"
  by (induction al) auto

lemma upsert_absent:
  assumes "map_of mm (getRowKey mdl name (pred_key r) fm) = None"
  shows "upsert mdl name dps src fm t r mm =
         mm @ [(getRowKey mdl name (pred_key r) fm,
                \<lparr>model = mdl, selection = name, predKey = pred_key r,
                 exampleIds = map input_id dps, headMetrics = [(t, metrics r)],
                 source = src, facets = fm\<rparr>)]"
  using assms by (simp add: upsert_def Let_def update_absent map_entry_append_absent)

lemma upsert_present:
  assumes "map_of mm (getRowKey mdl name (pred_key r) fm) = Some row"
  shows "upsert mdl name dps src fm t r mm =
         AList.map_entry (getRowKey mdl name (pred_key r) fm)
           (\<lambda>row. row\<lparr>exampleIds := map input_id dps,
                       headMetrics := AList.update t (metrics r) (headMetrics row)\<rparr>) mm"
  using assms by (simp add: upsert_def Let_def map_entry_twice)

lemma upsert_idem: "upsert mdl name dps src fm t r (upsert mdl name dps src fm t r mm) =
   upsert mdl name dps src fm t r mm"
proof (cases "map_of mm (getRowKey mdl name (pred_key r) fm)")
  case None
  let ?k = "getRowKey mdl name (pred_key r) fm"
  let ?row = "\<lparr>model = mdl, selection = name, predKey = pred_key r,
                 exampleIds = map input_id dps, headMetrics = [(t, metrics r)],
                 source = src, facets = fm\<rparr>"
  have 1: "upsert mdl name dps src fm t r mm = mm @ [(?k, ?row)]"
    using None by (rule upsert_absent)
  have "map_of (mm @ [(?k, ?row)]) ?k = Some ?row"
    using None by (simp add: map_add_def)
  from upsert_present [OF this] show ?thesis
    using None by (simp add: 1 map_entry_append_absent)
next
  case (Some row)
  let ?k = "getRowKey mdl name (pred_key r) fm"
  let ?f = "(\<lambda>row. row\<lparr>exampleIds := map input_id dps,
                       headMetrics := AList.update t (metrics r) (headMetrics row)\<rparr>)"
  have 1: "upsert mdl name dps src fm t r mm = AList.map_entry ?k ?f mm"
    using Some by (rule upsert_present)
  have "map_of (AList.map_entry ?k ?f mm) ?k = Some (?f row)"
    using Some by (rule map_entry_present)
  from upsert_present [OF this] show ?thesis
    by (simp add: 1 map_entry_twice)
qed

lemma step_filter:
  assumes "distinct (map fst m)"
  shows "(case map_of m key of None \<Rightarrow> m | Some row \<Rightarrow> if P row then AList.delete key m else m)
         = filter (\<lambda>(k, row). \<not> (k = key \<and> P row)) m"
  using assms
proof (induction m)
  case Nil
  then show ?case by simp
next
  case (Cons e m)
  obtain k row where e: "e = (k, row)" by (cases e)
  show ?case
  proof (cases "k = key")
    case True
    with Cons.prems e have "key \<notin> fst ` set m" by auto
    then have "filter (\<lambda>(k, row). \<not> (k = key \<and> P row)) m = m"
      by (force simp: filter_id_conv)
    moreover from \<open>key \<notin> fst ` set m\<close> have "AList.delete key m = m" by simp
    ultimately show ?thesis using True e by (simp add: AList.delete_eq)
  next
    case False
    from Cons.prems have "distinct (map fst m)" by simp
    from Cons.IH [OF this] False e show ?thesis
      by (auto split: option.splits simp: AList.delete_eq)
  qed
qed

lemma evict_loop:
  assumes "distinct (map fst m)"
  shows "fold (\<lambda>key m. case map_of m key of None \<Rightarrow> m
                       | Some row \<Rightarrow> if P row then AList.delete key m else m) ks m
         = filter (\<lambda>(k, row). \<not> (k \<in> set ks \<and> P row)) m"
  using assms
proof (induction ks arbitrary: m)
  case Nil
  then show ?case by simp
next
  case (Cons key ks)
  have d: "distinct (map fst (filter (\<lambda>(k, row). \<not> (k = key \<and> P row)) m))"
    using Cons.prems by (simp add: distinct_map_filter)
  show ?case
    using Cons.IH [OF d] step_filter [OF Cons.prems, where key = key and P = P]
    by (auto intro: filter_cong)
qed

lemma evict_filter:
  assumes "wellFormed mm"
  shows "evict P mm = filter (\<lambda>(k, row). \<not> P row) mm"
proof -
  have "evict P mm = filter (\<lambda>(k, row). \<not> (k \<in> set (map fst mm) \<and> P row)) mm"
    unfolding evict_def using assms evict_loop [of mm P "map fst mm"] by (simp add: wellFormed_def)
  also have "\<dots> = filter (\<lambda>(k, row). \<not> P row) mm"
    by (rule filter_cong) (auto simp: rev_image_eqI)
  finally show ?thesis .
qed

lemma map_entry_map_of:
  "map_of al k = Some v \<Longrightarrow> map_of (AList.map_entry k f al) = (map_of al)(k \<mapsto> f v)"
  by (rule ext) (simp add: map_entry_present map_entry_other)

lemma getMetrics_models_eq:
  "getMetrics_models dps mdls api =
     (map (\<lambda>mdl. if dps = [] then Fulfilled None else Pending) mdls,
      api @ (if dps = [] then [] else map (\<lambda>mdl. (mdl, map input_id dps)) mdls))"
  by (induction mdls arbitrary: api) (simp_all add: getMetrics_def)

lemma addMetrics_eq:
  "addMetrics env dps src fm dn s =
     s\<lparr>pendingCalls := pendingCalls s + 1,
       apiCalls := apiCalls s @ requestsFor env dps,
       invocations := invocations s @ [suspended env dps src fm dn]\<rparr>"
  by (simp add: addMetrics_def Let_def getMetrics_models_eq suspended_def requestsFor_def)

lemma addMetrics_fields [simp]:
  "metricsMap (addMetrics env dps src fm dn s) = metricsMap s"
  "selectedFacets (addMetrics env dps src fm dn s) = selectedFacets s"
  "facetBySlice (addMetrics env dps src fm dn s) = facetBySlice s"
  "pendingCalls (addMetrics env dps src fm dn s) = pendingCalls s + 1"
  "invocations (addMetrics env dps src fm dn s) = invocations s @ [suspended env dps src fm dn]"
  "apiCalls (addMetrics env dps src fm dn s) = apiCalls s @ requestsFor env dps"
  by (simp_all add: addMetrics_eq)

lemma faceted_fold_fields:
  "metricsMap (fold (\<lambda>(key, g). addMetrics env (group_data g) src (Some (group_facets g)) None) gs s)
     = metricsMap s"
  "selectedFacets (fold (\<lambda>(key, g). addMetrics env (group_data g) src (Some (group_facets g)) None) gs s)
     = selectedFacets s"
  "facetBySlice (fold (\<lambda>(key, g). addMetrics env (group_data g) src (Some (group_facets g)) None) gs s)
     = facetBySlice s"
  "invocations (fold (\<lambda>(key, g). addMetrics env (group_data g) src (Some (group_facets g)) None) gs s)
     = invocations s @
       map (\<lambda>(key, g). suspended env (group_data g) src (Some (group_facets g)) None) gs"
  by (induction gs arbitrary: s) (simp_all add: case_prod_beta)

lemma updateFacetedMetrics_fields [simp]:
  "metricsMap (updateFacetedMetrics env dps isSel s) = metricsMap s"
  "selectedFacets (updateFacetedMetrics env dps isSel s) = selectedFacets s"
  "facetBySlice (updateFacetedMetrics env dps isSel s) = facetBySlice s"
  by (simp_all add: updateFacetedMetrics_def Let_def faceted_fold_fields)

lemma updateFacetedMetrics_invocations:
  "invocations (updateFacetedMetrics env dps isSel s) =
     invocations s @ (if selectedFacets s = [] then [] else facetedCalls env dps isSel (selectedFacets s))"
  by (simp add: updateFacetedMetrics_def Let_def faceted_fold_fields facetedCalls_def)

subsection \<open>Upsert\<close>

text \<open>
  C5. An upsert of a row whose key is not in the store appends the row, with the ids of
  the batch and with the incoming generator as its only \<open>headMetrics\<close> entry. An upsert
  on a key that is in the store keeps the keys of the store and their order, replaces the
  row's \<open>exampleIds\<close> by the ids of the batch (the old ids are gone), and sets the
  \<open>headMetrics\<close> entry of the incoming generator to the incoming metrics as a whole:
  every other generator keeps its metrics, and nothing of the old metrics of the incoming
  generator is left.
\<close>

theorem upsert_insert_or_merge:
  "(map_of mm (getRowKey mdl name (pred_key r) fm) = None \<longrightarrow>
      upsert mdl name dps src fm t r mm =
        mm @ [(getRowKey mdl name (pred_key r) fm,
               \<lparr>model = mdl, selection = name, predKey = pred_key r,
                exampleIds = map input_id dps, headMetrics = [(t, metrics r)],
                source = src, facets = fm\<rparr>)])
   \<and> (\<forall>row. map_of mm (getRowKey mdl name (pred_key r) fm) = Some row \<longrightarrow>
        map fst (upsert mdl name dps src fm t r mm) = map fst mm
        \<and> map_of (upsert mdl name dps src fm t r mm) =
            (map_of mm)(getRowKey mdl name (pred_key r) fm \<mapsto>
               row\<lparr>exampleIds := map input_id dps,
                   headMetrics := AList.update t (metrics r) (headMetrics row)\<rparr>)
        \<and> map_of (AList.update t (metrics r) (headMetrics row)) =
            (map_of (headMetrics row))(t \<mapsto> metrics r))"
  by (simp add: upsert_absent upsert_present map_entry_keys map_entry_map_of update_conv')

theorem upsert_insert_or_merge_witness:
  "map_of [] (getRowKey ''bert'' ''dataset'' (pred_key exampleEntry) None) = None
   \<and> upsert ''bert'' ''dataset'' exampleInputs DATASET None ''classification'' exampleEntry []
       = [(''bert-dataset-label-'', exampleRow)]
   \<and> map_of exampleStore (getRowKey ''bert'' ''dataset'' (pred_key exampleEntry) None)
       = Some exampleRow
   \<and> map fst (upsert ''bert'' ''dataset'' [\<lparr>input_id = ''e3''\<rparr>] DATASET None ''classification''
                 (exampleEntry\<lparr>metrics := [(''f1'', Finite 1)]\<rparr>) exampleStore)
       = map fst exampleStore
   \<and> map_of (upsert ''bert'' ''dataset'' [\<lparr>input_id = ''e3''\<rparr>] DATASET None ''classification''
                 (exampleEntry\<lparr>metrics := [(''f1'', Finite 1)]\<rparr>) exampleStore)
       = (map_of exampleStore)(''bert-dataset-label-'' \<mapsto>
            exampleRow\<lparr>exampleIds := [''e3''], headMetrics := [(''classification'', [(''f1'', Finite 1)])]\<rparr>)"
proof -
  have key: "getRowKey ''bert'' ''dataset'' (pred_key exampleEntry) None = ''bert-dataset-label-''"
    by (simp add: getRowKey_def exampleEntry_def)
  have a: "map_of [] (getRowKey ''bert'' ''dataset'' (pred_key exampleEntry) None) = None"
    by simp
  have b: "map_of exampleStore
             (getRowKey ''bert'' ''dataset'' (pred_key (exampleEntry\<lparr>metrics := [(''f1'', Finite 1)]\<rparr>)) None)
           = Some exampleRow"
    by (simp add: getRowKey_def exampleEntry_def exampleStore_def)
  from a upsert_insert_or_merge
         [of "[]" "''bert''" "''dataset''" exampleEntry None exampleInputs DATASET "''classification''"]
  have 1: "upsert ''bert'' ''dataset'' exampleInputs DATASET None ''classification'' exampleEntry []
           = [(''bert-dataset-label-'', exampleRow)]"
    by (simp add: key) (simp add: exampleRow_def exampleEntry_def exampleInputs_def)
  from b upsert_insert_or_merge
         [of exampleStore "''bert''" "''dataset''" "exampleEntry\<lparr>metrics := [(''f1'', Finite 1)]\<rparr>" None
             "[\<lparr>input_id = ''e3''\<rparr>]" DATASET "''classification''"]
  have 2: "map fst (upsert ''bert'' ''dataset'' [\<lparr>input_id = ''e3''\<rparr>] DATASET None ''classification''
                 (exampleEntry\<lparr>metrics := [(''f1'', Finite 1)]\<rparr>) exampleStore)
           = map fst exampleStore"
    and 3: "map_of (upsert ''bert'' ''dataset'' [\<lparr>input_id = ''e3''\<rparr>] DATASET None ''classification''
                 (exampleEntry\<lparr>metrics := [(''f1'', Finite 1)]\<rparr>) exampleStore)
           = (map_of exampleStore)(''bert-dataset-label-'' \<mapsto>
                exampleRow\<lparr>exampleIds := [''e3''],
                  headMetrics := AList.update ''classification'' [(''f1'', Finite 1)] (headMetrics exampleRow)\<rparr>)"
    by (simp_all add: key [simplified])
  have "AList.update ''classification'' [(''f1'', Finite 1)] (headMetrics exampleRow)
        = [(''classification'', [(''f1'', Finite 1)])]"
    by (simp add: exampleRow_def)
  with a b 1 2 3 show ?thesis by (simp add: key)
qed

text \<open>
  C9. Applying the same upsert a second time changes nothing.
\<close>

theorem upsert_idempotent:
  "upsert mdl name dps src fm t r (upsert mdl name dps src fm t r mm) =
   upsert mdl name dps src fm t r mm"
  by (rule upsert_idem)

text \<open>
  C10. An upsert on a key that is in the store leaves the row's \<open>model\<close>,
  \<open>selection\<close>, \<open>predKey\<close>, \<open>source\<close> and \<open>facets\<close> as they are, whatever the
  incoming call carries; it changes \<open>exampleIds\<close> and the \<open>headMetrics\<close> entry of the
  incoming generator only.
\<close>

theorem upsert_keeps_identity:
  assumes "map_of mm (getRowKey mdl name (pred_key r) fm) = Some row"
  shows "\<exists>row'. map_of (upsert mdl name dps src fm t r mm) (getRowKey mdl name (pred_key r) fm)
                  = Some row'
           \<and> model row' = model row \<and> selection row' = selection row
           \<and> predKey row' = predKey row \<and> source row' = source row \<and> facets row' = facets row
           \<and> exampleIds row' = map input_id dps
           \<and> map_of (headMetrics row') = (map_of (headMetrics row))(t \<mapsto> metrics r)"
  using assms by (simp add: upsert_present map_entry_present update_conv')

text \<open>
  A slice that the user named \<open>dataset\<close> has the key of the dataset row: the row stays
  a \<open>DATASET\<close> row.
\<close>

theorem upsert_keeps_identity_witness:
  "map_of exampleStore (getRowKey ''bert'' ''dataset'' (pred_key exampleEntry) None) = Some exampleRow
   \<and> (\<exists>row'. map_of (upsert ''bert'' ''dataset'' [\<lparr>input_id = ''e3''\<rparr>] SLICE None ''regression''
                       exampleEntry exampleStore)
                (getRowKey ''bert'' ''dataset'' (pred_key exampleEntry) None) = Some row'
        \<and> model row' = ''bert'' \<and> selection row' = ''dataset'' \<and> predKey row' = ''label''
        \<and> source row' = DATASET \<and> facets row' = None \<and> exampleIds row' = [''e3'']
        \<and> map_of (headMetrics row') =
            (map_of (headMetrics exampleRow))(''regression'' \<mapsto> metrics exampleEntry))"
proof -
  have h: "map_of exampleStore (getRowKey ''bert'' ''dataset'' (pred_key exampleEntry) None)
           = Some exampleRow"
    by (simp add: getRowKey_def exampleEntry_def exampleStore_def)
  from upsert_keeps_identity [OF h, of "[\<lparr>input_id = ''e3''\<rparr>]" SLICE "''regression''"]
  have "\<exists>row'. map_of (upsert ''bert'' ''dataset'' [\<lparr>input_id = ''e3''\<rparr>] SLICE None ''regression''
                       exampleEntry exampleStore)
                (getRowKey ''bert'' ''dataset'' (pred_key exampleEntry) None) = Some row'
        \<and> model row' = model exampleRow \<and> selection row' = selection exampleRow
        \<and> predKey row' = predKey exampleRow \<and> source row' = source exampleRow
        \<and> facets row' = facets exampleRow \<and> exampleIds row' = map input_id [\<lparr>input_id = ''e3''\<rparr>]
        \<and> map_of (headMetrics row') =
            (map_of (headMetrics exampleRow))(''regression'' \<mapsto> metrics exampleEntry)" .
  with h show ?thesis by (simp add: exampleRow_def)
qed

subsection \<open>Purges\<close>

text \<open>
  C6 (as the code has it). The reaction to a change of the selection deletes every row
  whose \<open>source\<close> is \<open>SELECTION\<close>, with or without \<open>facets\<close>, and keeps every row of
  another source as it is and where it is; the calls of \<open>addMetrics\<close> that follow in
  the reaction do not touch the store before they are resumed.
\<close>

theorem selection_purge:
  assumes "wellFormed (metricsMap s)"
  shows "metricsMap (onSelectedInputData env s) =
           filter (\<lambda>(key, row). source row \<noteq> SELECTION) (metricsMap s)
         \<and> purgeSelection s =
           s\<lparr>metricsMap := filter (\<lambda>(key, row). source row \<noteq> SELECTION) (metricsMap s)\<rparr>"
  using assms by (simp add: onSelectedInputData_def purgeSelection_def Let_def evict_filter)

theorem selection_purge_witness:
  "wellFormed (metricsMap exampleState)
   \<and> metricsMap (onSelectedInputData exampleEnv exampleState) = [(''bert-dataset-label-'', exampleRow)]"
proof -
  have h: "wellFormed (metricsMap exampleState)"
    by (simp add: wellFormed_def exampleState_def exampleStore_def)
  from selection_purge [OF h, of exampleEnv] h show ?thesis
    by (simp add: exampleState_def exampleStore_def exampleRow_def exampleFacetedRow_def)
qed

text \<open>
  C6 (as stated) fails: a \<open>SELECTION\<close> row that carries \<open>facets\<close> is in the store
  before the reaction and is gone after it.
\<close>

theorem faceted_selection_row_purged:
  "map_of (metricsMap exampleState) ''bert-selection (faceted)-label-news-'' = Some exampleFacetedRow
   \<and> source exampleFacetedRow = SELECTION
   \<and> facets exampleFacetedRow = Some [(''genre'', ''news'')]
   \<and> map_of (metricsMap (onSelectedInputData exampleEnv exampleState))
        ''bert-selection (faceted)-label-news-'' = None"
  by (simp add: onSelectedInputData_def purgeSelection_def Let_def evict_def
        exampleState_def exampleStore_def exampleRow_def exampleFacetedRow_def)

text \<open>
  C7. \<open>updateAllFacetedMetrics\<close> deletes every row that has \<open>facets\<close>, so that no row
  of the store has \<open>facets\<close> when it returns. With no facet selected it does nothing
  else: no call of \<open>addMetrics\<close>, no request, the counter as it was. With a facet
  selected it calls \<open>addMetrics\<close> once for each group of the selection and then once for
  each group of the dataset.
\<close>

theorem updateAllFacetedMetrics_evicts:
  assumes "wellFormed (metricsMap s)"
  shows "metricsMap (updateAllFacetedMetrics env s) =
           filter (\<lambda>(key, row). facets row = None) (metricsMap s)
         \<and> (\<forall>(key, row) \<in> set (metricsMap (updateAllFacetedMetrics env s)). facets row = None)
         \<and> (selectedFacets s = [] \<longrightarrow>
              updateAllFacetedMetrics env s =
                s\<lparr>metricsMap := filter (\<lambda>(key, row). facets row = None) (metricsMap s)\<rparr>)
         \<and> (selectedFacets s \<noteq> [] \<longrightarrow>
              invocations (updateAllFacetedMetrics env s) =
                invocations s
                @ facetedCalls env (selectedInputData env) True (selectedFacets s)
                @ facetedCalls env (currentInputData env) False (selectedFacets s))"
proof -
  have mm: "metricsMap (updateAllFacetedMetrics env s) =
            filter (\<lambda>(key, row). facets row = None) (metricsMap s)"
    using assms by (simp add: updateAllFacetedMetrics_def Let_def evict_filter)
  have none: "selectedFacets s = [] \<longrightarrow>
              updateAllFacetedMetrics env s =
                s\<lparr>metricsMap := filter (\<lambda>(key, row). facets row = None) (metricsMap s)\<rparr>"
    using assms by (simp add: updateAllFacetedMetrics_def Let_def evict_filter)
  have some: "selectedFacets s \<noteq> [] \<longrightarrow>
              invocations (updateAllFacetedMetrics env s) =
                invocations s
                @ facetedCalls env (selectedInputData env) True (selectedFacets s)
                @ facetedCalls env (currentInputData env) False (selectedFacets s)"
    by (simp add: updateAllFacetedMetrics_def Let_def updateFacetedMetrics_invocations)
  from mm none some show ?thesis by auto
qed

theorem updateAllFacetedMetrics_evicts_witness:
  "wellFormed (metricsMap exampleState) \<and> selectedFacets exampleState = []
   \<and> updateAllFacetedMetrics exampleEnv exampleState =
       exampleState\<lparr>metricsMap := [(''bert-dataset-label-'', exampleRow)]\<rparr>
   \<and> map (\<lambda>(key, row). facets row) (metricsMap (updateAllFacetedMetrics exampleEnv exampleState))
       = [None]
   \<and> selectedFacets (exampleState\<lparr>selectedFacets := [''genre'']\<rparr>) \<noteq> []
   \<and> map inv_source
        (invocations (updateAllFacetedMetrics exampleEnv (exampleState\<lparr>selectedFacets := [''genre'']\<rparr>)))
       = [SELECTION, DATASET]"
proof -
  have h1: "wellFormed (metricsMap exampleState)"
    by (simp add: wellFormed_def exampleState_def exampleStore_def)
  have h2: "wellFormed (metricsMap (exampleState\<lparr>selectedFacets := [''genre'']\<rparr>))"
    using h1 by simp
  have f: "filter (\<lambda>(key, row). facets row = None) (metricsMap exampleState)
           = [(''bert-dataset-label-'', exampleRow)]"
    by (simp add: exampleState_def exampleStore_def exampleRow_def exampleFacetedRow_def)
  have e: "selectedFacets exampleState = []"
    by (simp add: exampleState_def initialState_def)
  have i: "invocations exampleState = []"
    by (simp add: exampleState_def initialState_def)
  from updateAllFacetedMetrics_evicts [OF h1, of exampleEnv] e f
  have 1: "updateAllFacetedMetrics exampleEnv exampleState =
             exampleState\<lparr>metricsMap := [(''bert-dataset-label-'', exampleRow)]\<rparr>"
    and 2: "map (\<lambda>(key, row). facets row) (metricsMap (updateAllFacetedMetrics exampleEnv exampleState))
            = [None]"
    by (simp_all add: exampleRow_def)
  from updateAllFacetedMetrics_evicts [OF h2, of exampleEnv] i
  have 3: "map inv_source
        (invocations (updateAllFacetedMetrics exampleEnv (exampleState\<lparr>selectedFacets := [''genre'']\<rparr>)))
       = [SELECTION, DATASET]"
    by (simp add: facetedCalls_def suspended_def exampleEnv_def)
  from h1 e 1 2 3 show ?thesis by simp
qed

subsection \<open>Facts about \<open>addMetrics\<close> and the counter\<close>

lemma promiseAll_Rejected_iff: "(promiseAll ps = Rejected) = (Rejected \<in> set ps)"
proof (induction ps)
  case Nil
  then show ?case by simp
next
  case (Cons p ps)
  then show ?case by (cases p) (auto split: promise.splits)
qed

lemma promiseAll_Rejected: "Rejected \<in> set ps \<Longrightarrow> promiseAll ps = Rejected"
  by (simp add: promiseAll_Rejected_iff)

lemma promiseAll_Pending: "(promiseAll ps = Pending) = (Pending \<in> set ps \<and> Rejected \<notin> set ps)"
proof (induction ps)
  case Nil
  then show ?case by simp
next
  case (Cons p ps)
  show ?case
  proof (cases p)
    case Pending
    then show ?thesis
      using promiseAll_Rejected_iff [of ps] by (auto split: promise.splits)
  next
    case (Fulfilled v)
    then show ?thesis
      using Cons.IH by (auto split: promise.splits)
  next
    case Rejected
    then show ?thesis by simp
  qed
qed

lemma promiseAll_Fulfilled:
  "promiseAll (map (\<lambda>x. Fulfilled (f x)) xs) = Fulfilled (map f xs)"
  by (induction xs) simp_all

lemma addMetrics_resume_None:
  "(addMetrics_resume c s = None) = (promiseAll (inv_promises c) = Pending)"
  by (simp add: addMetrics_resume_def Let_def split: promise.splits prod.splits)

lemma addMetrics_resume_Some:
  assumes "addMetrics_resume c s = Some (s', err)"
  shows "pendingCalls s' = pendingCalls s - 1" and "invocations s' = invocations s"
    and "apiCalls s' = apiCalls s" and "selectedFacets s' = selectedFacets s"
    and "facetBySlice s' = facetBySlice s"
    and "promiseAll (inv_promises c) \<noteq> Pending"
  using assms
  by (auto simp: addMetrics_resume_def Let_def split: promise.splits prod.splits)

lemma addMetrics_resume_Rejected:
  assumes "Rejected \<in> set (inv_promises c)"
  shows "addMetrics_resume c s = Some (s\<lparr>pendingCalls := pendingCalls s - 1\<rparr>, None)"
  using promiseAll_Rejected [OF assms] by (simp add: addMetrics_resume_def)

lemma length_filter_update_same:
  "i < length xs \<Longrightarrow> P y = P (xs ! i) \<Longrightarrow> length (filter P (xs[i := y])) = length (filter P xs)"
proof (induction xs arbitrary: i)
  case Nil
  then show ?case by simp
next
  case (Cons x xs)
  then show ?case by (cases i) auto
qed

lemma length_filter_update_drop:
  "i < length xs \<Longrightarrow> P (xs ! i) \<Longrightarrow> \<not> P y \<Longrightarrow>
   Suc (length (filter P (xs[i := y]))) = length (filter P xs)"
proof (induction xs arbitrary: i)
  case Nil
  then show ?case by simp
next
  case (Cons x xs)
  then show ?case by (cases i) auto
qed

lemma counted_addMetrics: "counted s \<Longrightarrow> counted (addMetrics env dps src fm dn s)"
  by (simp add: counted_def awaiting_def suspended_def)

lemma counted_metricsMap [simp]: "counted (s\<lparr>metricsMap := mm\<rparr>) = counted s"
  by (simp add: counted_def awaiting_def)

lemma counted_facetBySlice [simp]: "counted (s\<lparr>facetBySlice := b\<rparr>) = counted s"
  by (simp add: counted_def awaiting_def)

lemma counted_selectedFacets [simp]: "counted (s\<lparr>selectedFacets := fs\<rparr>) = counted s"
  by (simp add: counted_def awaiting_def)

lemma counted_fold:
  assumes "\<And>x s. counted s \<Longrightarrow> counted (f x s)" and "counted s"
  shows "counted (fold f xs s)"
  using assms(2) by (induction xs arbitrary: s) (simp_all add: assms(1))

lemma counted_updateFacetedMetrics:
  "counted s \<Longrightarrow> counted (updateFacetedMetrics env dps isSel s)"
  by (auto simp: updateFacetedMetrics_def Let_def intro!: counted_fold counted_addMetrics)

lemma counted_updateAllFacetedMetrics:
  "counted s \<Longrightarrow> counted (updateAllFacetedMetrics env s)"
  by (simp add: updateAllFacetedMetrics_def Let_def counted_updateFacetedMetrics)

lemma counted_updateSliceMetrics:
  "counted s \<Longrightarrow> counted (updateSliceMetrics env s)"
  by (auto simp: updateSliceMetrics_def Let_def intro!: counted_fold counted_addMetrics)

lemma counted_onSelectedInputData:
  "counted s \<Longrightarrow> counted (onSelectedInputData env s)"
  by (simp add: onSelectedInputData_def purgeSelection_def Let_def
        counted_updateFacetedMetrics counted_addMetrics)

lemma counted_settle: "counted s \<Longrightarrow> counted (settle i j outcome s)"
  by (simp add: settle_def counted_def awaiting_def length_filter_update_same)

lemma counted_resume:
  assumes "counted s"
  shows "counted (resume i s)"
proof (cases "i < length (invocations s) \<and> inv_status (invocations s ! i) = Awaiting")
  case False
  with assms show ?thesis by (auto simp: resume_def)
next
  case True
  show ?thesis
  proof (cases "addMetrics_resume (invocations s ! i) s")
    case None
    with assms show ?thesis by (simp add: resume_def)
  next
    case (Some res)
    obtain s1 err where res: "res = (s1, err)" by (cases res)
    note s1 = addMetrics_resume_Some(1,2) [OF Some [unfolded res]]
    let ?c = "(invocations s ! i)\<lparr>inv_status := (case err of None \<Rightarrow> Returned | Some e \<Rightarrow> Threw e)\<rparr>"
    have na: "\<not> inv_status ?c = Awaiting" by (cases err) simp_all
    have "Suc (length (filter (\<lambda>c. inv_status c = Awaiting) ((invocations s)[i := ?c])))
          = length (filter (\<lambda>c. inv_status c = Awaiting) (invocations s))"
      using True na by (intro length_filter_update_drop) simp_all
    then show ?thesis
      using assms True Some res s1 by (simp add: resume_def counted_def awaiting_def)
  qed
qed

lemma counted_step: "counted s \<Longrightarrow> counted (step e s)"
  by (cases e)
     (simp_all add: firstUpdated_def onCurrentInputData_def onAllMarginSettings_def
        onSliceNames_def onSlicesCheckboxChecked_def onFeatureCheckboxChange_def
        counted_onSelectedInputData counted_updateAllFacetedMetrics counted_updateSliceMetrics
        counted_addMetrics counted_settle counted_resume)

lemma counted_run: "counted s \<Longrightarrow> counted (run evs s)"
  unfolding run_def by (induction evs arbitrary: s) (simp_all add: counted_step)

lemma counted_initialState: "counted initialState"
  by (simp add: counted_def awaiting_def initialState_def)


lemma inFlight_0: "(inFlight c = 0) = (Pending \<notin> set (inv_promises c))"
  by (auto simp: inFlight_def filter_empty_conv)

lemma resume_cases:
  obtains (skip) "resume i s = s"
  | (go) s1 err where "i < length (invocations s)" "inv_status (invocations s ! i) = Awaiting"
      "addMetrics_resume (invocations s ! i) s = Some (s1, err)"
      "resume i s = s1\<lparr>invocations := (invocations s)
          [i := (invocations s ! i)
                  \<lparr>inv_status := (case err of None \<Rightarrow> Returned | Some e \<Rightarrow> Threw e)\<rparr>]\<rparr>"
proof (cases "i < length (invocations s) \<and> inv_status (invocations s ! i) = Awaiting")
  case False
  then have "resume i s = s" by (auto simp: resume_def)
  then show ?thesis by (rule skip)
next
  case True
  show ?thesis
  proof (cases "addMetrics_resume (invocations s ! i) s")
    case None
    then have "resume i s = s" using True by (simp add: resume_def)
    then show ?thesis by (rule skip)
  next
    case (Some res)
    obtain s1 err where res: "res = (s1, err)" by (cases res)
    show ?thesis
      using True Some res addMetrics_resume_Some(2) [OF Some [unfolded res]]
      by (intro go [of s1 err]) (simp_all add: resume_def)
  qed
qed

lemma resume_length [simp]: "length (invocations (resume i s)) = length (invocations s)"
  by (cases i s rule: resume_cases) simp_all

lemma resume_promises:
  "k < length (invocations s) \<Longrightarrow>
   inv_promises (invocations (resume i s) ! k) = inv_promises (invocations s ! k)"
  by (cases i s rule: resume_cases) (simp_all add: nth_list_update)

lemma resume_status_kept:
  "k < length (invocations s) \<Longrightarrow> inv_status (invocations s ! k) \<noteq> Awaiting \<Longrightarrow>
   inv_status (invocations (resume i s) ! k) \<noteq> Awaiting"
  by (cases i s rule: resume_cases) (auto simp: nth_list_update split: option.splits)

lemma resume_status_done:
  assumes "i < length (invocations s)" and "Pending \<notin> set (inv_promises (invocations s ! i))"
  shows "inv_status (invocations (resume i s) ! i) \<noteq> Awaiting"
proof (cases "inv_status (invocations s ! i) = Awaiting")
  case False
  then show ?thesis using assms(1) by (rule resume_status_kept [rotated])
next
  case True
  have "promiseAll (inv_promises (invocations s ! i)) \<noteq> Pending"
    using assms(2) by (simp add: promiseAll_Pending)
  then obtain res where res: "addMetrics_resume (invocations s ! i) s = Some res"
    using addMetrics_resume_None [of "invocations s ! i" s] by (cases "addMetrics_resume (invocations s ! i) s") auto
  obtain s1 err where "res = (s1, err)" by (cases res)
  with res True assms(1) addMetrics_resume_Some(2) [of "invocations s ! i" s s1 err]
  show ?thesis by (simp add: resume_def split: option.splits)
qed

lemma resumes_done:
  assumes "\<forall>k<length (invocations s). Pending \<notin> set (inv_promises (invocations s ! k))"
    and "\<forall>i \<in> set is. i < length (invocations s)"
  shows "length (invocations (fold resume is s)) = length (invocations s)
         \<and> (\<forall>k<length (invocations s).
               (k \<in> set is \<or> inv_status (invocations s ! k) \<noteq> Awaiting) \<longrightarrow>
               inv_status (invocations (fold resume is s) ! k) \<noteq> Awaiting)"
  using assms
proof (induction "is" arbitrary: s)
  case Nil
  then show ?case by simp
next
  case (Cons i "is")
  let ?s = "resume i s"
  have len: "length (invocations ?s) = length (invocations s)" by simp
  have p: "\<forall>k<length (invocations ?s). Pending \<notin> set (inv_promises (invocations ?s ! k))"
    using Cons.prems(1) by (simp add: resume_promises)
  have b: "\<forall>i \<in> set is. i < length (invocations ?s)"
    using Cons.prems(2) by simp
  note IH = Cons.IH [OF p b]
  have i: "inv_status (invocations ?s ! i) \<noteq> Awaiting"
    using Cons.prems by (intro resume_status_done) simp_all
  show ?case
    using IH i len resume_status_kept [of _ s i] by auto
qed

lemma run_Resume: "run (map Resume is) s = fold resume is s"
proof -
  have "(\<lambda>i. step (Resume i)) = resume" by (rule ext)+ simp
  then show ?thesis by (simp add: run_def fold_map comp_def)
qed

lemma drained:
  assumes "answered s"
  shows "awaiting (run (map Resume [0..<length (invocations s)]) s) = []"
proof -
  let ?s = "fold resume [0..<length (invocations s)] s"
  have a: "\<forall>k<length (invocations s). Pending \<notin> set (inv_promises (invocations s ! k))"
    using assms by (simp add: answered_def inFlight_0)
  have b: "\<forall>i \<in> set [0..<length (invocations s)]. i < length (invocations s)" by simp
  from resumes_done [OF a b]
  have len: "length (invocations ?s) = length (invocations s)"
    and st: "\<forall>k<length (invocations s). inv_status (invocations ?s ! k) \<noteq> Awaiting"
    by simp_all
  have "\<forall>c \<in> set (invocations ?s). inv_status c \<noteq> Awaiting"
    using len st by (auto simp: in_set_conv_nth)
  then show ?thesis
    by (simp add: run_Resume awaiting_def filter_empty_conv)
qed

subsection \<open>The counter of pending calls\<close>

text \<open>
  C2 (as the code has it). Every call of \<open>addMetrics\<close> adds one to \<open>pendingCalls\<close>
  before it sends its requests, and takes one off when it is resumed, in the \<open>try\<close>
  branch and in the \<open>catch\<close> branch alike. It is resumed when \<open>Promise.all\<close> of its
  requests has settled: when all of them are fulfilled, or as soon as one of them is
  rejected, at which moment others may still be in flight. So in every state that the
  module reaches \<open>pendingCalls\<close> is the number of calls suspended at their \<open>await\<close>;
  it is never negative; it is \<open>0\<close> when no call is suspended; and once every request
  has been answered, resuming the calls brings it to \<open>0\<close>.
\<close>

theorem pendingCalls_counts_suspended:
  assumes "s = run evs initialState"
  shows "pendingCalls (addMetrics env dps src fm dn s) = pendingCalls s + 1
         \<and> (\<forall>c s' err. addMetrics_resume c s = Some (s', err) \<longrightarrow> pendingCalls s' = pendingCalls s - 1)
         \<and> (\<forall>c. (addMetrics_resume c s = None) =
                 (Pending \<in> set (inv_promises c) \<and> Rejected \<notin> set (inv_promises c)))
         \<and> pendingCalls s = int (length (awaiting s))
         \<and> 0 \<le> pendingCalls s
         \<and> (awaiting s = [] \<longrightarrow> pendingCalls s = 0)
         \<and> (answered s \<longrightarrow> pendingCalls (run (map Resume [0..<length (invocations s)]) s) = 0)"
proof -
  have c: "counted s"
    using assms counted_run [OF counted_initialState] by simp
  have d: "answered s \<longrightarrow> pendingCalls (run (map Resume [0..<length (invocations s)]) s) = 0"
  proof
    assume "answered s"
    then have "awaiting (run (map Resume [0..<length (invocations s)]) s) = []"
      by (rule drained)
    moreover have "counted (run (map Resume [0..<length (invocations s)]) s)"
      using c by (rule counted_run)
    ultimately show "pendingCalls (run (map Resume [0..<length (invocations s)]) s) = 0"
      by (simp add: counted_def)
  qed
  have r: "\<forall>c s' err. addMetrics_resume c s = Some (s', err) \<longrightarrow> pendingCalls s' = pendingCalls s - 1"
    using addMetrics_resume_Some(1) by blast
  from c d r show ?thesis
    by (simp add: counted_def addMetrics_resume_None promiseAll_Pending)
qed

theorem pendingCalls_counts_suspended_witness:
  "answered (run exampleSettled initialState)
   \<and> pendingCalls (run exampleSettled initialState) = 1
   \<and> addMetrics_resume (invocations (run exampleSettled initialState) ! 0)
        (run exampleSettled initialState)
       = Some ((run exampleSettled initialState)\<lparr>pendingCalls := 0\<rparr>, None)
   \<and> pendingCalls (run (map Resume [0..<length (invocations (run exampleSettled initialState))])
                      (run exampleSettled initialState)) = 0
   \<and> awaiting (run (exampleSettled @ [Resume 0]) initialState) = []
   \<and> pendingCalls (run (exampleSettled @ [Resume 0]) initialState) = 0"
proof -
  let ?s = "run exampleSettled initialState"
  let ?t = "run (exampleSettled @ [Resume 0]) initialState"
  have a: "answered ?s"
    by (simp add: answered_def inFlight_def run_def exampleSettled_def settle_def
          initialState_def exampleEnv_def exampleInputs_def suspended_def)
  have p: "pendingCalls ?s = 1"
    by (simp add: run_def exampleSettled_def settle_def initialState_def)
  have r: "addMetrics_resume (invocations ?s ! 0) ?s = Some (?s\<lparr>pendingCalls := 0\<rparr>, None)"
    by (simp add: run_def exampleSettled_def settle_def initialState_def exampleEnv_def
          exampleInputs_def suspended_def addMetrics_resume_def)
  have w: "awaiting ?t = []"
    by (simp add: awaiting_def run_def exampleSettled_def settle_def resume_def
          initialState_def exampleEnv_def exampleInputs_def suspended_def addMetrics_resume_def)
  from pendingCalls_counts_suspended [OF refl, where evs = exampleSettled] a
  have 1: "pendingCalls (run (map Resume [0..<length (invocations ?s)]) ?s) = 0"
    by blast
  from pendingCalls_counts_suspended [OF refl, where evs = "exampleSettled @ [Resume 0]"] w
  have 2: "pendingCalls ?t = 0"
    by blast
  from a p r w 1 2 show ?thesis by simp
qed

text \<open>
  C2 (as stated) fails in the moment at which the counter goes down: after the first request of a call
  has failed, the call is resumed and the counter is back at \<open>0\<close> while the second
  request of the same call is still in flight.
\<close>

theorem pendingCalls_down_before_all_settle:
  "pendingCalls (run (take 2 exampleFailFast) initialState) = 1
   \<and> pendingCalls (run exampleFailFast initialState) = 0
   \<and> inv_status (invocations (run exampleFailFast initialState) ! 0) = Returned
   \<and> inv_promises (invocations (run exampleFailFast initialState) ! 0) = [Rejected, Pending]
   \<and> inFlight (invocations (run exampleFailFast initialState) ! 0) = 1"
  by (simp add: inFlight_def run_def exampleFailFast_def settle_def resume_def
        initialState_def exampleEnv_def exampleInputs_def suspended_def addMetrics_resume_def)

subsection \<open>A failed batch\<close>

text \<open>
  C3. When one of the requests of a call has been rejected, resuming the call takes one
  off the counter and does nothing else: the store is what it was, whatever the other
  requests returned, and the call returns without an error.
\<close>

theorem failed_batch_discarded:
  assumes "Rejected \<in> set (inv_promises c)"
  shows "addMetrics_resume c s = Some (s\<lparr>pendingCalls := pendingCalls s - 1\<rparr>, None)
         \<and> (\<forall>i. i < length (invocations s) \<and> invocations s ! i = c \<and> inv_status c = Awaiting \<longrightarrow>
               metricsMap (resume i s) = metricsMap s
               \<and> pendingCalls (resume i s) = pendingCalls s - 1
               \<and> inv_status (invocations (resume i s) ! i) = Returned)"
  using addMetrics_resume_Rejected [OF assms, of s]
  by (auto simp: resume_def)

theorem failed_batch_discarded_witness:
  "inv_promises (invocations (run exampleSettled exampleState) ! 0)
     = [Fulfilled (Some exampleResponse), Rejected]
   \<and> inv_status (invocations (run exampleSettled exampleState) ! 0) = Awaiting
   \<and> metricsMap (resume 0 (run exampleSettled exampleState)) = exampleStore
   \<and> pendingCalls (resume 0 (run exampleSettled exampleState)) = 0
   \<and> inv_status (invocations (resume 0 (run exampleSettled exampleState)) ! 0) = Returned"
proof -
  let ?s = "run exampleSettled exampleState"
  have p: "inv_promises (invocations ?s ! 0) = [Fulfilled (Some exampleResponse), Rejected]"
    by (simp add: run_def exampleSettled_def settle_def exampleState_def
          initialState_def exampleEnv_def exampleInputs_def suspended_def)
  have a: "inv_status (invocations ?s ! 0) = Awaiting"
    by (simp add: run_def exampleSettled_def settle_def exampleState_def
          initialState_def suspended_def)
  have l: "0 < length (invocations ?s)"
    by (simp add: run_def exampleSettled_def settle_def exampleState_def initialState_def)
  have m: "metricsMap ?s = exampleStore" and c: "pendingCalls ?s = 1"
    by (simp_all add: run_def exampleSettled_def settle_def exampleState_def initialState_def)
  have h: "Rejected \<in> set (inv_promises (invocations ?s ! 0))"
    by (simp add: p)
  from failed_batch_discarded [OF h, of ?s] l a
  have "metricsMap (resume 0 ?s) = metricsMap ?s
        \<and> pendingCalls (resume 0 ?s) = pendingCalls ?s - 1
        \<and> inv_status (invocations (resume 0 ?s) ! 0) = Returned"
    by blast
  with p a m c show ?thesis by simp
qed

subsection \<open>A call with no examples\<close>

lemma storeReturned_undefined:
  "fst (storeReturned name dps src fm (zip mdls (map (\<lambda>m. None) mdls)) mm) = mm"
  by (cases mdls) simp_all

lemma addMetrics_resume_empty:
  "\<exists>err. addMetrics_resume (suspended env [] src fm dn) s =
          Some (s\<lparr>pendingCalls := pendingCalls s - 1\<rparr>, err)"
proof -
  have "promiseAll (inv_promises (suspended env [] src fm dn)) =
        Fulfilled (map (\<lambda>m. None) (currentModels env))"
    by (simp add: suspended_def promiseAll_Fulfilled)
  moreover obtain mm err where
    "storeReturned (rowName src fm dn) [] src fm
       (zip (currentModels env) (map (\<lambda>m. None) (currentModels env))) (metricsMap s) = (mm, err)"
    by force
  moreover from this have "mm = metricsMap s"
    using storeReturned_undefined [of "rowName src fm dn" "[]" src fm "currentModels env" "metricsMap s"]
    by simp
  ultimately show ?thesis
    by (simp add: addMetrics_resume_def suspended_def)
qed

text \<open>
  C4 (as the code has it). A call of \<open>addMetrics\<close> with no examples, from whatever call
  site, sends no request and leaves the store as it is, when it is called and when it is
  resumed. The counter does change: it goes up by one when the call is made and down by
  one when the call is resumed, in whatever state \<open>s'\<close> that happens.
\<close>

theorem addMetrics_empty:
  "metricsMap (addMetrics env [] src fm dn s) = metricsMap s
   \<and> apiCalls (addMetrics env [] src fm dn s) = apiCalls s
   \<and> inFlight (last (invocations (addMetrics env [] src fm dn s))) = 0
   \<and> pendingCalls (addMetrics env [] src fm dn s) = pendingCalls s + 1
   \<and> (\<exists>err. addMetrics_resume (last (invocations (addMetrics env [] src fm dn s))) s' =
             Some (s'\<lparr>pendingCalls := pendingCalls s' - 1\<rparr>, err))"
  using addMetrics_resume_empty [of env src fm dn s']
  by (simp add: requestsFor_def inFlight_def suspended_def)

text \<open>
  C4 (as stated) fails for the counter: the call changes it, from \<open>0\<close> to \<open>1\<close> here,
  until the call is resumed.
\<close>

theorem empty_call_changes_counter:
  "pendingCalls initialState = 0
   \<and> pendingCalls (addMetrics exampleEnv [] DATASET None None initialState) = 1
   \<and> pendingCalls (resume 0 (addMetrics exampleEnv [] DATASET None None initialState)) = 0"
  by (simp add: resume_def initialState_def exampleEnv_def suspended_def addMetrics_resume_def)

subsection \<open>Facts about the metric columns\<close>

lemma less_10_cases:
  "d < 10 \<Longrightarrow> d = 0 \<or> d = 1 \<or> d = 2 \<or> d = 3 \<or> d = 4 \<or> d = 5 \<or> d = 6 \<or> d = 7 \<or> d = 8 \<or> d = (9::nat)"
  by arith

lemma digitVal_digitChar: "d < 10 \<Longrightarrow> digitVal (digitChar d) = d"
  by (drule less_10_cases) (auto simp: digitVal_def digitChar_def)

lemma isDigit_digitChar: "d < 10 \<Longrightarrow> isDigit (digitChar d)"
  by (drule less_10_cases) (auto simp: isDigit_def digitChar_def)

lemma digits_nonempty: "digits n \<noteq> []"
  by (induction n rule: digits.induct) (subst digits.simps, simp)

lemma digits_isDigit: "\<forall>c \<in> set (digits n). isDigit c"
proof (induction n rule: digits.induct)
  case (1 n)
  show ?case
  proof (cases "n < 10")
    case True
    then show ?thesis by (subst digits.simps) (simp add: isDigit_digitChar)
  next
    case False
    with 1 show ?thesis by (subst digits.simps) (simp add: isDigit_digitChar)
  qed
qed

lemma natOfDigits_snoc: "natOfDigits (s @ [c]) = 10 * natOfDigits s + digitVal c"
  by (simp add: natOfDigits_def)

lemma natOfDigits_digits: "natOfDigits (digits n) = n"
proof (induction n rule: digits.induct)
  case (1 n)
  show ?case
  proof (cases "n < 10")
    case True
    then show ?thesis
      by (subst digits.simps) (simp add: natOfDigits_def digitVal_digitChar)
  next
    case False
    with 1 have "natOfDigits (digits (n div 10)) = n div 10" by simp
    with False show ?thesis
      by (subst digits.simps) (simp add: natOfDigits_snoc digitVal_digitChar)
  qed
qed

lemma natOfDigits_zeros: "natOfDigits (replicate k (CHR ''0'') @ s) = natOfDigits s"
proof -
  have "foldl (\<lambda>a c. 10 * a + digitVal c) 0 (replicate k (CHR ''0'')) = 0"
    by (induction k) (simp_all add: digitVal_def)
  then show ?thesis by (simp add: natOfDigits_def)
qed

lemma remainder1_whole: "(remainder1 (Finite x) \<noteq> Finite 0) = (x \<notin> \<int>)"
proof
  assume r: "remainder1 (Finite x) \<noteq> Finite 0"
  show "x \<notin> \<int>"
  proof
    assume "x \<in> \<int>"
    then obtain z where "x = of_int z" by (rule Ints_cases)
    with r show False by (simp split: if_splits)
  qed
next
  assume n: "x \<notin> \<int>"
  show "remainder1 (Finite x) \<noteq> Finite 0"
  proof
    assume "remainder1 (Finite x) = Finite 0"
    then have "x = of_int (if x < 0 then \<lceil>x\<rceil> else \<lfloor>x\<rfloor>)"
      by simp
    then have "x \<in> \<int>" by (metis Ints_of_int)
    with n show False by simp
  qed
qed

lemma splitColonSpace_plain: "\<not> hasColonSpace s \<Longrightarrow> splitColonSpace s = [s]"
  by (induction s rule: hasColonSpace.induct) simp_all

lemma splitColonSpace_column:
  "\<not> hasColonSpace g \<Longrightarrow> splitColonSpace (g @ CHR '':'' # CHR '' '' # m) = g # splitColonSpace m"
proof (induction g rule: hasColonSpace.induct)
  case (1 a b cs)
  then show ?case by simp
next
  case (2 a)
  then show ?case by simp
next
  case 3
  then show ?case by simp
qed

lemma splitColonSpace_columnName:
  assumes "\<not> hasColonSpace g" and "\<not> hasColonSpace m"
  shows "splitColonSpace (columnName g m) = [g, m]"
  using assms by (simp add: columnName_def splitColonSpace_column splitColonSpace_plain)

lemma toFixed3_shape:
  "\<exists>ip fp. toFixed 3 (Finite num) = (if num < 0 then ''-'' else '''') @ ip @ ''.'' @ fp
       \<and> length fp = 3 \<and> ip \<noteq> [] \<and> (\<forall>c \<in> set (ip @ fp). isDigit c)
       \<and> \<bar>of_nat (natOfDigits (ip @ fp)) / 1000 - \<bar>num\<bar>\<bar> \<le> 1 / 2000"
proof -
  define n where "n = nat \<lfloor>\<bar>num\<bar> * 10 ^ 3 + 1 / 2\<rfloor>"
  define m where "m = digits n"
  define m1 where "m1 = (if length m \<le> 3 then replicate (3 + 1 - length m) (CHR ''0'') @ m else m)"
  define ip where "ip = take (length m1 - 3) m1"
  define fp where "fp = drop (length m1 - 3) m1"
  have len: "length m1 \<ge> 4"
    by (simp add: m1_def)
  have tf: "toFixed 3 (Finite num) = (if num < 0 then ''-'' else '''') @ ip @ ''.'' @ fp"
    by (simp add: toFixedFinite_def Let_def n_def m_def m1_def ip_def fp_def)
  have m1: "ip @ fp = m1" by (simp add: ip_def fp_def)
  have dig: "\<forall>c \<in> set m1. isDigit c"
    using digits_isDigit [of n] by (auto simp: m1_def m_def isDigit_def)
  have val: "natOfDigits m1 = n"
    by (simp add: m1_def m_def natOfDigits_zeros natOfDigits_digits)
  define y where "y = \<bar>num\<bar> * 1000"
  define z where "z = \<lfloor>y + 1 / 2\<rfloor>"
  have "0 \<le> y + 1 / 2" by (simp add: y_def)
  then have "0 \<le> z" unfolding z_def by (simp only: zero_le_floor)
  moreover have "n = nat z" by (simp add: n_def z_def y_def)
  ultimately have n: "(of_nat n :: rat) = of_int z" by simp
  have "of_int z \<le> y + 1 / 2" and "y + 1 / 2 < of_int z + 1"
    unfolding z_def by linarith+
  then have "\<bar>of_int z - y\<bar> \<le> 1 / 2" by linarith
  then have "\<bar>of_int z - y\<bar> / 1000 \<le> (1 / 2) / 1000"
    by (rule divide_right_mono) simp
  then have b: "\<bar>(of_int z - y) / 1000\<bar> \<le> 1 / 2000" by simp
  have "of_nat n / 1000 - \<bar>num\<bar> = (of_int z - y) / 1000"
    by (simp add: n y_def field_simps)
  with b have near: "\<bar>of_nat n / 1000 - \<bar>num\<bar>\<bar> \<le> 1 / 2000"
    by (simp only:)
  from near tf m1 len dig val show ?thesis
    by (intro exI [of _ ip] exI [of _ fp]) (auto simp: ip_def fp_def)
qed


lemma set_setAdd: "set (setAdd names x) = insert x (set names)"
  by (auto simp: setAdd_def)

lemma metricNames_inner:
  "set (fold (\<lambda>(metricName, v) names. setAdd names (columnName t metricName)) mv acc) =
   set acc \<union> (\<lambda>(metricName, v). columnName t metricName) ` set mv"
  by (induction mv arbitrary: acc) (simp_all add: set_setAdd case_prod_beta)

lemma metricNames_row:
  "set (fold (\<lambda>(metricsType, metricsValues).
                fold (\<lambda>(metricName, v) names. setAdd names (columnName metricsType metricName))
                     metricsValues) hm acc) =
   set acc \<union> (\<Union>(t, mv) \<in> set hm. (\<lambda>(metricName, v). columnName t metricName) ` set mv)"
  by (induction hm arbitrary: acc) (simp_all add: metricNames_inner case_prod_beta Un_assoc)

lemma metricNames_rows:
  "set (fold (\<lambda>(key, row).
                fold (\<lambda>(metricsType, metricsValues).
                        fold (\<lambda>(metricName, v) names. setAdd names (columnName metricsType metricName))
                             metricsValues)
                     (headMetrics row)) mm acc) =
   set acc \<union> (\<Union>(key, row) \<in> set mm. \<Union>(t, mv) \<in> set (headMetrics row).
                 (\<lambda>(metricName, v). columnName t metricName) ` set mv)"
  by (induction mm arbitrary: acc) (simp_all add: metricNames_row case_prod_beta Un_assoc)

text \<open>
  The metric columns of the table are the names \<open>generator: metric\<close> of the metrics
  that the rows of the store hold.
\<close>

lemma metricNames_set:
  "set (metricNames mm) =
     (\<Union>(key, row) \<in> set mm. \<Union>(t, mv) \<in> set (headMetrics row).
        (\<lambda>(metricName, v). columnName t metricName) ` set mv)"
  by (simp add: metricNames_def metricNames_rows)

subsection \<open>The cells of the metric columns\<close>

text \<open>
  C8 (as the code has it). Take a generator and a metric whose names do not contain the
  two characters \<open>: \<close> and are not names that every object inherits. The cell of a
  row in their column is \<open>-\<close> if the row has no metrics of that generator or no metric
  of that name among them; otherwise it is the metric's value: for a finite value the
  number itself if it is whole, else the string that \<open>toFixed(3)\<close> makes of it; for
  \<open>NaN\<close> and the infinities their names. The string for a finite value is the sign, at
  least one digit, a point and exactly three digits, and the digits are those of the
  multiple of \<open>0.001\<close> nearest to the value. (The column's name is split at \<open>: \<close> to
  find the generator and the metric, so a name that contains \<open>: \<close> is not found
  again; and both reads go on to what the object inherits, so an inherited name is found
  in a row that does not have it.)
\<close>

theorem metricCell_resolution:
  assumes "\<not> hasColonSpace metricsType" and "\<not> hasColonSpace metricName"
    and "inherited metricsType = None" and "inherited metricName = None"
  shows "metricCell inherited row (columnName metricsType metricName) =
           (case map_of (headMetrics row) metricsType of
              None \<Rightarrow> Str ''-''
            | Some metricsValues \<Rightarrow>
                (case map_of metricsValues metricName of
                   None \<Rightarrow> Str ''-''
                 | Some (Finite num) \<Rightarrow>
                     if num \<in> \<int> then Num (Finite num) else Str (toFixed 3 (Finite num))
                 | Some NaN \<Rightarrow> Str ''NaN''
                 | Some Infinity \<Rightarrow> Str ''Infinity''
                 | Some MinusInfinity \<Rightarrow> Str ''-Infinity''))
         \<and> (\<exists>ip fp. toFixed 3 (Finite x) = (if x < 0 then ''-'' else '''') @ ip @ ''.'' @ fp
               \<and> length fp = 3 \<and> ip \<noteq> [] \<and> (\<forall>c \<in> set (ip @ fp). isDigit c)
               \<and> \<bar>of_nat (natOfDigits (ip @ fp)) / 1000 - \<bar>x\<bar>\<bar> \<le> 1 / 2000)"
proof -
  have split: "splitColonSpace (columnName metricsType metricName) = [metricsType, metricName]"
    using assms(1,2) by (rule splitColonSpace_columnName)
  have num: "shown (NumberVal v) =
               (case v of
                  Finite num \<Rightarrow>
                    if num \<in> \<int> then Num (Finite num) else Str (toFixed 3 (Finite num))
                | NaN \<Rightarrow> Str ''NaN''
                | Infinity \<Rightarrow> Str ''Infinity''
                | MinusInfinity \<Rightarrow> Str ''-Infinity'')" for v
  proof (cases v)
    case (Finite num)
    then show ?thesis
      using remainder1_whole [of num] by (simp del: remainder1.simps)
  qed simp_all
  have "metricCell inherited row (columnName metricsType metricName) =
           (case map_of (headMetrics row) metricsType of
              None \<Rightarrow> Str ''-''
            | Some metricsValues \<Rightarrow>
                (case map_of metricsValues metricName of
                   None \<Rightarrow> Str ''-''
                 | Some v \<Rightarrow> shown (NumberVal v)))"
    using assms(3,4)
    by (simp add: metricCell_def split element_def del: shown.simps(2) split: option.splits)
  also have "\<dots> =
           (case map_of (headMetrics row) metricsType of
              None \<Rightarrow> Str ''-''
            | Some metricsValues \<Rightarrow>
                (case map_of metricsValues metricName of
                   None \<Rightarrow> Str ''-''
                 | Some (Finite num) \<Rightarrow>
                     if num \<in> \<int> then Num (Finite num) else Str (toFixed 3 (Finite num))
                 | Some NaN \<Rightarrow> Str ''NaN''
                 | Some Infinity \<Rightarrow> Str ''Infinity''
                 | Some MinusInfinity \<Rightarrow> Str ''-Infinity''))"
    by (simp only: num)
  finally show ?thesis
    using toFixed3_shape [of x] by blast
qed

text \<open>
  The examples of the specification: \<open>0.5\<close> is shown as \<open>0.500\<close>, \<open>4\<close> as \<open>4\<close>, and
  a generator that the row does not have as \<open>-\<close>.
\<close>

theorem metricCell_resolution_witness:
  "\<not> hasColonSpace ''classification'' \<and> \<not> hasColonSpace ''accuracy''
   \<and> \<not> hasColonSpace ''n'' \<and> \<not> hasColonSpace ''regression'' \<and> \<not> hasColonSpace ''mse''
   \<and> exampleRuntime ''classification'' = None \<and> exampleRuntime ''accuracy'' = None
   \<and> exampleRuntime ''n'' = None \<and> exampleRuntime ''regression'' = None
   \<and> exampleRuntime ''mse'' = None
   \<and> metricCell exampleRuntime exampleRow (columnName ''classification'' ''accuracy'') = Str ''0.500''
   \<and> metricCell exampleRuntime exampleRow (columnName ''classification'' ''n'') = Num (Finite 4)
   \<and> metricCell exampleRuntime exampleRow (columnName ''regression'' ''mse'') = Str ''-''
   \<and> metricCell exampleRuntime exampleRow (columnName ''classification'' ''mse'') = Str ''-''
   \<and> metricCell exampleRuntime exampleNaNRow (columnName ''regression'' ''mse'') = Str ''NaN''"
proof -
  have h: "\<not> hasColonSpace ''classification''" "\<not> hasColonSpace ''accuracy''"
    "\<not> hasColonSpace ''n''" "\<not> hasColonSpace ''regression''" "\<not> hasColonSpace ''mse''"
    by simp_all
  have r: "exampleRuntime ''classification'' = None" "exampleRuntime ''accuracy'' = None"
    "exampleRuntime ''n'' = None" "exampleRuntime ''regression'' = None"
    "exampleRuntime ''mse'' = None"
    by (simp_all add: exampleRuntime_def)
  have half: "(1 / 2 :: rat) \<notin> \<int>"
    by (simp add: of_int_floor_cancel [symmetric] del: of_int_floor_cancel)
  have fixed: "toFixed 3 (Finite (1 / 2)) = ''0.500''"
    by code_simp
  from metricCell_resolution [OF h(1) h(2) r(1) r(2), of exampleRow]
  have 1: "metricCell exampleRuntime exampleRow (columnName ''classification'' ''accuracy'')
           = Str ''0.500''"
    by (simp add: exampleRow_def half fixed del: toFixed.simps)
  from metricCell_resolution [OF h(1) h(3) r(1) r(3), of exampleRow]
  have 2: "metricCell exampleRuntime exampleRow (columnName ''classification'' ''n'')
           = Num (Finite 4)"
    by (simp add: exampleRow_def del: toFixed.simps)
  from metricCell_resolution [OF h(4) h(5) r(4) r(5), of exampleRow]
  have 3: "metricCell exampleRuntime exampleRow (columnName ''regression'' ''mse'') = Str ''-''"
    by (simp add: exampleRow_def del: toFixed.simps)
  from metricCell_resolution [OF h(1) h(5) r(1) r(5), of exampleRow]
  have 4: "metricCell exampleRuntime exampleRow (columnName ''classification'' ''mse'') = Str ''-''"
    by (simp add: exampleRow_def del: toFixed.simps)
  from metricCell_resolution [OF h(4) h(5) r(4) r(5), of exampleNaNRow]
  have 5: "metricCell exampleRuntime exampleNaNRow (columnName ''regression'' ''mse'') = Str ''NaN''"
    by (simp add: exampleNaNRow_def del: toFixed.simps)
  from h r 1 2 3 4 5 show ?thesis by simp
qed

text \<open>
  C8 (as stated) fails in three ways. For a name that contains \<open>: \<close>: the row has the
  generator \<open>paired: swap\<close> with the metric \<open>delta\<close> at \<open>0.5\<close>, the table has the
  column of that generator and metric, and the row's cell in that column is \<open>-\<close>. For
  a name that every object inherits: the row has no generator \<open>constructor\<close>, and its
  cell in the column of the generator \<open>constructor\<close> and the metric \<open>name\<close> is the
  string \<open>Object\<close>. For a value that is not finite: \<open>NaN\<close> is not a whole number, and
  its cell is \<open>NaN\<close>, without decimal places.
\<close>

theorem metricCell_colon_in_name:
  "map_of (headMetrics exampleColonRow) ''paired: swap'' = Some [(''delta'', Finite (1 / 2))]
   \<and> metricNames [(''bert-dataset-label-'', exampleColonRow)] = [columnName ''paired: swap'' ''delta'']
   \<and> metricCell exampleRuntime exampleColonRow (columnName ''paired: swap'' ''delta'') = Str ''-''
   \<and> map_of (headMetrics exampleRow) ''constructor'' = None
   \<and> metricCell exampleRuntime exampleRow (columnName ''constructor'' ''name'') = Str ''Object''
   \<and> map_of (headMetrics exampleNaNRow) ''regression'' = Some [(''mse'', NaN)]
   \<and> metricCell exampleRuntime exampleNaNRow (columnName ''regression'' ''mse'') = Str ''NaN''"
  by (simp add: exampleColonRow_def exampleRow_def exampleNaNRow_def exampleRuntime_def
        metricNames_def setAdd_def columnName_def metricCell_def element_def)

subsection \<open>The stores that the module reaches\<close>

lemma wellFormed_upsert:
  "wellFormed mm \<Longrightarrow> wellFormed (upsert mdl name dps src fm t r mm)"
  by (simp add: upsert_def Let_def wellFormed_def map_entry_keys distinct_update)

lemma wellFormed_fold:
  assumes "\<And>x mm. wellFormed mm \<Longrightarrow> wellFormed (f x mm)" and "wellFormed mm"
  shows "wellFormed (fold f xs mm)"
  using assms(2) by (induction xs arbitrary: mm) (simp_all add: assms(1))

lemma wellFormed_storeReturned:
  "wellFormed mm \<Longrightarrow> wellFormed (fst (storeReturned name dps src fm zs mm))"
proof (induction name dps src fm zs mm rule: storeReturned.induct)
  case (1 name datapoints src facetMap mm)
  then show ?case by simp
next
  case (2 name datapoints src facetMap mdl rest mm)
  then show ?case by simp
next
  case (3 name datapoints src facetMap mdl returnedMetrics rest mm)
  have "wellFormed (fold (\<lambda>(metricsType, metricsRespones).
                fold (upsert mdl name datapoints src facetMap metricsType) metricsRespones)
             returnedMetrics mm)"
    using "3.prems"
    by (intro wellFormed_fold) (auto intro!: wellFormed_fold wellFormed_upsert)
  with "3.IH" show ?case by simp
qed

lemma wellFormed_evict: "wellFormed mm \<Longrightarrow> wellFormed (evict P mm)"
  by (simp add: evict_filter) (simp add: wellFormed_def distinct_map_filter)

lemma metricsMap_fold:
  assumes "\<And>x s. metricsMap (f x s) = metricsMap s"
  shows "metricsMap (fold f xs s) = metricsMap s"
  by (induction xs arbitrary: s) (simp_all add: assms)

lemma metricsMap_updateAllFacetedMetrics:
  "metricsMap (updateAllFacetedMetrics env s) = evict (\<lambda>row. facets row \<noteq> None) (metricsMap s)"
  by (simp add: updateAllFacetedMetrics_def Let_def)

lemma metricsMap_updateSliceMetrics:
  "metricsMap (updateSliceMetrics env s) = evict (\<lambda>row. source row = SLICE) (metricsMap s)"
  by (simp add: updateSliceMetrics_def Let_def metricsMap_fold)

lemma metricsMap_onSelectedInputData:
  "metricsMap (onSelectedInputData env s) = evict (\<lambda>row. source row = SELECTION) (metricsMap s)"
  by (simp add: onSelectedInputData_def purgeSelection_def Let_def)

lemma metricsMap_settle: "metricsMap (settle i j outcome s) = metricsMap s"
  by (simp add: settle_def)

lemma wellFormed_resume:
  assumes "wellFormed (metricsMap s)"
  shows "wellFormed (metricsMap (resume i s))"
proof (cases i s rule: resume_cases)
  case skip
  with assms show ?thesis by simp
next
  case (go s1 err)
  from go(3) have "metricsMap s1 =
      fst (storeReturned (rowName (inv_source (invocations s ! i)) (inv_facetMap (invocations s ! i))
                            (inv_displayName (invocations s ! i)))
             (inv_datapoints (invocations s ! i)) (inv_source (invocations s ! i))
             (inv_facetMap (invocations s ! i))
             (zip (inv_models (invocations s ! i))
                  (case promiseAll (inv_promises (invocations s ! i)) of
                     Fulfilled vs \<Rightarrow> vs | _ \<Rightarrow> []))
             (metricsMap s))"
    by (auto simp: addMetrics_resume_def Let_def split: promise.splits prod.splits)
  with assms go(4) show ?thesis by (simp add: wellFormed_storeReturned)
qed

lemma wellFormed_step: "wellFormed (metricsMap s) \<Longrightarrow> wellFormed (metricsMap (step e s))"
  by (cases e)
     (simp_all add: firstUpdated_def onCurrentInputData_def onAllMarginSettings_def
        onSliceNames_def onSlicesCheckboxChecked_def onFeatureCheckboxChange_def
        metricsMap_updateAllFacetedMetrics metricsMap_updateSliceMetrics
        metricsMap_onSelectedInputData metricsMap_settle wellFormed_evict wellFormed_resume)

text \<open>Every store that the module reaches has each key once.\<close>

lemma wellFormed_run: "wellFormed (metricsMap (run evs initialState))"
proof -
  have "wellFormed (metricsMap s) \<Longrightarrow> wellFormed (metricsMap (run evs s))" for s
    unfolding run_def by (induction evs arbitrary: s) (simp_all add: wellFormed_step)
  moreover have "wellFormed (metricsMap initialState)"
    by (simp add: initialState_def wellFormed_def)
  ultimately show ?thesis .
qed
subsection \<open>A run of the module\<close>

text \<open>
  One model, two examples: the dataset metrics are fetched, the service answers with an
  accuracy of \<open>0.5\<close> for the field \<open>label\<close>, and the call is resumed. The store then
  holds one row, the table has the column \<open>classification: accuracy\<close>, and the row's
  cell in it reads \<open>0.500\<close>.
\<close>

lemma scenario_dataset_accuracy:
  "metricsMap
     (run [AddMetrics (exampleEnv\<lparr>currentModels := [''bert'']\<rparr>) exampleInputs DATASET None None,
           Answer 0 0 [(''classification'',
                        [\<lparr>pred_key = ''label'', label_key = ''y'', metrics = [(''accuracy'', Finite (1 / 2))]\<rparr>])],
           Resume 0]
        initialState)
   = [(''bert-dataset-label-'',
       \<lparr>model = ''bert'', selection = ''dataset'', predKey = ''label'',
        exampleIds = [''e1'', ''e2''],
        headMetrics = [(''classification'', [(''accuracy'', Finite (1 / 2))])],
        source = DATASET, facets = None\<rparr>)]
   \<and> metricNames
       [(''bert-dataset-label-'',
         \<lparr>model = ''bert'', selection = ''dataset'', predKey = ''label'',
          exampleIds = [''e1'', ''e2''],
          headMetrics = [(''classification'', [(''accuracy'', Finite (1 / 2))])],
          source = DATASET, facets = None\<rparr>)]
     = [''classification: accuracy'']
   \<and> metricCell exampleRuntime
       \<lparr>model = ''bert'', selection = ''dataset'', predKey = ''label'',
        exampleIds = [''e1'', ''e2''],
        headMetrics = [(''classification'', [(''accuracy'', Finite (1 / 2))])],
        source = DATASET, facets = None\<rparr>
       ''classification: accuracy''
     = Str ''0.500''"
proof -
  have "toFixed 3 (Finite (1 / 2)) = ''0.500''"
    by code_simp
  moreover have "remainder1 (Finite (1 / 2)) \<noteq> Finite 0"
    by code_simp
  ultimately show ?thesis
    by (simp add: run_def settle_def resume_def addMetrics_resume_def suspended_def
          del: remainder1.simps toFixed.simps add:
          initialState_def exampleEnv_def exampleInputs_def rowName_def upsert_def getRowKey_def
          metricNames_def setAdd_def columnName_def metricCell_def element_def)
qed


end
